theory Spec2Isabelle
  imports Main
begin

section \<open>Strings and the JavaScript values of the configuration\<close>

text \<open>
  The worker in \<^verbatim>\<open>src/index.js\<close> proxies GET and HEAD requests to an S3-compatible
  backend. This theory embeds its functions and settles the properties of the
  specification on them. JavaScript strings are \<^typ>\<open>string\<close>; the URL paths and header
  names the worker handles are ASCII.
\<close>

definition lower_char :: "char \<Rightarrow> char" where
  "lower_char c =
     (case map_of (zip ''ABCDEFGHIJKLMNOPQRSTUVWXYZ'' ''abcdefghijklmnopqrstuvwxyz'') c of
        Some l \<Rightarrow> l
      | None \<Rightarrow> c)"

definition toLowerCase :: "string \<Rightarrow> string" where
  "toLowerCase s = map lower_char s"

text \<open>\<^verbatim>\<open>s.startsWith(p)\<close>.\<close>

definition startsWith :: "string \<Rightarrow> string \<Rightarrow> bool" where
  "startsWith s p = (take (length p) s = p)"

text \<open>
  \<^verbatim>\<open>s.split(c)\<close> for a one-character separator: the pieces between the
  separators, one more than there are separators; the empty string gives one
  empty piece.
\<close>

fun split :: "char \<Rightarrow> string \<Rightarrow> string list" where
  "split c [] = [[]]"
| "split c (x # xs) =
     (if x = c then [] # split c xs
      else (x # hd (split c xs)) # tl (split c xs))"

text \<open>Decimal rendering of a number inside a template literal.\<close>

definition digit_char :: "nat \<Rightarrow> char" where
  "digit_char d = ''0123456789'' ! d"

function show_nat :: "nat \<Rightarrow> string" where
  "show_nat n = (if n < 10 then [digit_char n] else show_nat (n div 10) @ [digit_char (n mod 10)])"
  by pat_completeness auto
termination
  by (relation "measure (\<lambda>n. n)") auto

declare show_nat.simps [simp del]

definition show_int :: "int \<Rightarrow> string" where
  "show_int i = (if i < 0 then CHR ''-'' # show_nat (nat (- i)) else show_nat (nat i))"

text \<open>
  A configuration variable read with \<^verbatim>\<open>String(env[...])\<close> may be missing, a
  boolean or a string.
\<close>

datatype jsval = Undefined | JBool bool | JString string

fun String :: "jsval \<Rightarrow> string" where
  "String Undefined = ''undefined''"
| "String (JBool b) = (if b then ''true'' else ''false'')"
| "String (JString s) = s"

section \<open>Headers, URLs, requests and responses of the platform\<close>

text \<open>
  A \<^verbatim>\<open>Headers\<close> object is the list of (name, value) pairs it was built from,
  the names as they were written. The platform looks names up without regard to
  case (\<^verbatim>\<open>has\<close>, \<^verbatim>\<open>get\<close>, \<^verbatim>\<open>set\<close>) and its iterator
  yields every name in lower case; the order in which the iterator yields the
  pairs, its merging of repeated names and the trimming of values are not
  modelled.
\<close>

type_synonym headers = "(string \<times> string) list"

definition Headers_new :: "(string \<times> string) list \<Rightarrow> headers" where
  "Headers_new pairs = pairs"

definition Headers_entries :: "headers \<Rightarrow> (string \<times> string) list" where
  "Headers_entries h = map (\<lambda>pair. (toLowerCase (fst pair), snd pair)) h"

definition Headers_has :: "headers \<Rightarrow> string \<Rightarrow> bool" where
  "Headers_has h name = (toLowerCase name \<in> set (map fst (Headers_entries h)))"

text \<open>\<^verbatim>\<open>get\<close>: the values under the name, joined with a comma and a space.\<close>

fun join_values :: "string list \<Rightarrow> string" where
  "join_values [] = []"
| "join_values [v] = v"
| "join_values (v # w # vs) = v @ '', '' @ join_values (w # vs)"

definition Headers_get :: "headers \<Rightarrow> string \<Rightarrow> string option" where
  "Headers_get h name =
     (if Headers_has h name
      then Some (join_values (map snd (filter (\<lambda>pair. fst pair = toLowerCase name) (Headers_entries h))))
      else None)"

text \<open>
  \<^verbatim>\<open>set\<close>: the first pair under the name takes the new value and the later
  ones are removed; a name that is absent is appended.
\<close>

fun set_first :: "string \<Rightarrow> string \<Rightarrow> headers \<Rightarrow> headers" where
  "set_first n v [] = []"
| "set_first n v (pair # rest) =
     (if toLowerCase (fst pair) = n
      then (fst pair, v) # filter (\<lambda>p. toLowerCase (fst p) \<noteq> n) rest
      else pair # set_first n v rest)"

definition Headers_set :: "headers \<Rightarrow> string \<Rightarrow> string \<Rightarrow> headers" where
  "Headers_set h name v =
     (if Headers_has h name then set_first (toLowerCase name) v h
      else h @ [(toLowerCase name, v)])"

record URL =
  protocol :: string
  hostname :: string
  port :: string
  pathname :: string
  search :: string

text \<open>
  Assigning \<^verbatim>\<open>url.pathname\<close>: the path of an http(s) URL starts with a slash,
  which the setter supplies when the assigned string has none.
\<close>

definition set_pathname :: "URL \<Rightarrow> string \<Rightarrow> URL" where
  "set_pathname u p = u\<lparr>pathname := (if p \<noteq> [] \<and> hd p = CHR ''/'' then p else CHR ''/'' # p)\<rparr>"

text \<open>
  Assigning \<^verbatim>\<open>url.hostname\<close>: the host is stored in lower case. What the
  setter does with a value that is not a host name (an empty one, or one with a
  colon, a slash or another character a host cannot have) is not modelled: the
  endpoint and the bucket of the configuration are taken to name hosts.
\<close>

definition set_hostname :: "URL \<Rightarrow> string \<Rightarrow> URL" where
  "set_hostname u h = u\<lparr>hostname := toLowerCase h\<rparr>"

text \<open>Assigning \<^verbatim>\<open>url.port\<close>: the default port of the scheme is stored as the empty string.\<close>

definition set_port :: "URL \<Rightarrow> string \<Rightarrow> URL" where
  "set_port u p =
     u\<lparr>port := (if (protocol u = ''https:'' \<and> p = ''443'') \<or> (protocol u = ''http:'' \<and> p = ''80'')
                then [] else p)\<rparr>"

definition URL_toString :: "URL \<Rightarrow> string" where
  "URL_toString u =
     protocol u @ ''//'' @ hostname u @ (if port u = [] then [] else CHR '':'' # port u)
       @ pathname u @ search u"

record request =
  req_method :: string
  req_url :: URL
  req_headers :: headers

record response =
  status :: nat
  statusText :: string
  headers :: headers
  body :: "string option"

text \<open>
  The responses are those a platform fetch yields, which the \<^verbatim>\<open>Response\<close>
  constructor accepts again: the constructor's refusal of a status outside
  200-599, or of a body with a status that allows none, is not modelled.
  \<^verbatim>\<open>response.ok\<close> is the status being from 200 to 299.
\<close>

definition ok :: "response \<Rightarrow> bool" where
  "ok r = (200 \<le> status r \<and> status r \<le> 299)"

record env =
  BUCKET_NAME :: string
  B2_ENDPOINT :: string
  B2_APPLICATION_KEY_ID :: string
  B2_APPLICATION_KEY :: string
  ALLOWED_HEADERS :: "string list option"
  ALLOW_LIST_BUCKET :: jsval
  RCLONE_DOWNLOAD :: jsval

section \<open>The signer and the upstream as collaborators\<close>

text \<open>
  \<^verbatim>\<open>AwsClient.sign\<close> of the library is a parameter: given the client, the URL, the
  method and the headers it returns the signed request.
\<close>

record aws_client =
  accessKeyId :: string
  secretAccessKey :: string
  service :: string

record signed_request =
  sr_url :: string
  sr_method :: string
  sr_headers :: headers

type_synonym signer = "aws_client \<Rightarrow> string \<Rightarrow> string \<Rightarrow> headers \<Rightarrow> signed_request"

text \<open>
  The effects of one run are recorded as a list of events, oldest first. The
  upstream is a parameter: what the \<open>n\<close>-th platform fetch of the run (counted
  from 0) yields for a URL, a method and headers, a response or a transport
  failure, which the handler does not catch.
\<close>

datatype error = NetworkError string

datatype event =
    Sign string string headers
  | Fetch string string headers
  | BodyCancel
  | ConsoleLog string
  | ConsoleError string

fun is_Sign :: "event \<Rightarrow> bool" where
  "is_Sign (Sign u m h) = True"
| "is_Sign e = False"

fun is_Fetch :: "event \<Rightarrow> bool" where
  "is_Fetch (Fetch u m h) = True"
| "is_Fetch e = False"

type_synonym upstream = "nat \<Rightarrow> string \<Rightarrow> string \<Rightarrow> headers \<Rightarrow> error + response"

definition fetch_count :: "event list \<Rightarrow> nat" where
  "fetch_count tr = length (filter is_Fetch tr)"

definition fetch_result :: "upstream \<Rightarrow> signed_request \<Rightarrow> event list \<Rightarrow> error + response" where
  "fetch_result up sr tr = up (fetch_count tr) (sr_url sr) (sr_method sr) (sr_headers sr)"

definition fetch_event :: "signed_request \<Rightarrow> event" where
  "fetch_event sr = Fetch (sr_url sr) (sr_method sr) (sr_headers sr)"

section \<open>The worker\<close>

definition UNSIGNABLE_HEADERS :: "string list" where
  "UNSIGNABLE_HEADERS =
     [''x-forwarded-proto'', ''x-real-ip'', ''accept-encoding'', ''if-match'',
      ''if-modified-since'', ''if-none-match'', ''if-range'', ''if-unmodified-since'']"

definition HTTPS_PROTOCOL :: string where
  "HTTPS_PROTOCOL = ''https:''"

definition HTTPS_PORT :: string where
  "HTTPS_PORT = ''443''"

definition RANGE_RETRY_ATTEMPTS :: int where
  "RANGE_RETRY_ATTEMPTS = 3"

definition BROWSER_CACHE_TTL_SECONDS :: nat where
  "BROWSER_CACHE_TTL_SECONDS = 2592000"

definition filterHeaders :: "headers \<Rightarrow> env \<Rightarrow> headers" where
  "filterHeaders hs e =
     Headers_new (filter (\<lambda>pair. \<not> (
          fst pair \<in> set UNSIGNABLE_HEADERS
        \<or> startsWith (fst pair) ''cf-''
        \<or> (case ALLOWED_HEADERS e of None \<Rightarrow> False
            | Some allowed \<Rightarrow> fst pair \<notin> set allowed)))
       (Headers_entries hs))"

definition createHeadResponse :: "response \<Rightarrow> response" where
  "createHeadResponse r =
     \<lparr>status = status r, statusText = statusText r,
      headers = Headers_new (Headers_entries (headers r)), body = None\<rparr>"

definition addCacheHeaders :: "response \<Rightarrow> nat \<Rightarrow> response" where
  "addCacheHeaders r cacheTtlSeconds =
     (if \<not> ok r then r
      else \<lparr>status = status r, statusText = statusText r,
            headers = Headers_set (Headers_new (Headers_entries (headers r))) ''Cache-Control''
                        (''public, max-age='' @ show_nat cacheTtlSeconds),
            body = body r\<rparr>)"

definition isListBucketRequest :: "env \<Rightarrow> string \<Rightarrow> bool" where
  "isListBucketRequest e path =
     (let pathSegments = split CHR ''/'' path
      in (BUCKET_NAME e = ''$path'' \<and> length pathSegments < 2)
       \<or> (BUCKET_NAME e \<noteq> ''$path'' \<and> length path = 0))"

text \<open>
  The three regular-expression replacements of the handler on the path:
  \<^verbatim>\<open>/^\//\<close> and \<^verbatim>\<open>/\/$/\<close> (one leading, one trailing slash),
  \<^verbatim>\<open>/^file\//\<close>, and \<^verbatim>\<open>/^file\/[^/]+\//\<close> (the prefix, a non-empty
  segment and the slash after it).
\<close>

definition remove_leading_slash :: "string \<Rightarrow> string" where
  "remove_leading_slash p = (if p \<noteq> [] \<and> hd p = CHR ''/'' then tl p else p)"

definition remove_trailing_slash :: "string \<Rightarrow> string" where
  "remove_trailing_slash p = (if p \<noteq> [] \<and> last p = CHR ''/'' then butlast p else p)"

definition remove_file_prefix :: "string \<Rightarrow> string" where
  "remove_file_prefix p = (if startsWith p ''file/'' then drop 5 p else p)"

definition remove_file_bucket_prefix :: "string \<Rightarrow> string" where
  "remove_file_bucket_prefix p =
     (if startsWith p ''file/''
         \<and> takeWhile (\<lambda>c. c \<noteq> CHR ''/'') (drop 5 p) \<noteq> []
         \<and> dropWhile (\<lambda>c. c \<noteq> CHR ''/'') (drop 5 p) \<noteq> []
      then tl (dropWhile (\<lambda>c. c \<noteq> CHR ''/'') (drop 5 p))
      else p)"

text \<open>Lines 111-114: the path the handler works with.\<close>

definition normalized_path :: "request \<Rightarrow> string" where
  "normalized_path req = remove_trailing_slash (remove_leading_slash (pathname (req_url req)))"

text \<open>Lines 159-167: the path assigned to the upstream URL in download mode.\<close>

definition rclone_path :: "env \<Rightarrow> string \<Rightarrow> string" where
  "rclone_path e path =
     (if BUCKET_NAME e = ''$path'' then remove_file_prefix path
      else remove_file_bucket_prefix path)"

text \<open>Lines 103-109, 126-142 and 159-167: the URL handed to the signer.\<close>

definition upstream_url :: "env \<Rightarrow> request \<Rightarrow> URL" where
  "upstream_url e req =
     (let url = req_url req;
          url = url\<lparr>protocol := HTTPS_PROTOCOL\<rparr>;
          url = set_port url HTTPS_PORT;
          path = normalized_path req;
          rcloneDownload = (String (RCLONE_DOWNLOAD e) = ''true'');
          url = (if BUCKET_NAME e = ''$path'' then set_hostname url (B2_ENDPOINT e)
                 else if BUCKET_NAME e = ''$host''
                 then set_hostname url (hd (split CHR ''.'' (hostname url)) @ ''.'' @ B2_ENDPOINT e)
                 else set_hostname url (BUCKET_NAME e @ ''.'' @ B2_ENDPOINT e))
      in if rcloneDownload then set_pathname url (rclone_path e path) else url)"

text \<open>The three diagnostics of the retry loop.\<close>

definition retry_succeeded_message :: "string \<Rightarrow> string" where
  "retry_succeeded_message u =
     ''Retry for '' @ u @ '' succeeded - response has content-range header''"

definition will_retry_message :: "string \<Rightarrow> int \<Rightarrow> string" where
  "will_retry_message u attempts =
     ''Range header in request for '' @ u
       @ '' but no content-range header in response. Will retry '' @ show_int attempts
       @ '' more times''"

definition exhausted_message :: "string \<Rightarrow> string" where
  "exhausted_message u =
     ''Tried range request for '' @ u @ '' '' @ show_int RANGE_RETRY_ATTEMPTS
       @ '' times, but no content-range in response.''"

text \<open>
  The state of the \<^verbatim>\<open>do ... while (attempts > 0)\<close> loop of lines 188-223 when it
  is left: the variables \<^verbatim>\<open>response\<close>, \<^verbatim>\<open>finalResponse\<close> and
  \<^verbatim>\<open>attempts\<close>.
\<close>

record loop_exit =
  exit_response :: response
  exit_finalResponse :: "response option"
  exit_attempts :: int

function range_loop ::
  "upstream \<Rightarrow> signed_request \<Rightarrow> int \<Rightarrow> event list \<Rightarrow> (error + loop_exit) \<times> event list" where
  "range_loop up sr attempts tr =
     (case fetch_result up sr tr of
        Inl err \<Rightarrow> (Inl err, tr @ [fetch_event sr])
      | Inr response \<Rightarrow>
          if Headers_has (headers response) ''content-range'' then
            (Inr \<lparr>exit_response = response, exit_finalResponse = Some response, exit_attempts = attempts\<rparr>,
             tr @ [fetch_event sr]
                @ (if attempts < RANGE_RETRY_ATTEMPTS
                   then [ConsoleLog (retry_succeeded_message (sr_url sr))] else []))
          else if ok response then
            if attempts - 1 > 0 then
              range_loop up sr (attempts - 1)
                (tr @ [fetch_event sr]
                    @ [ConsoleError (will_retry_message (sr_url sr) (attempts - 1))]
                    @ (if body response \<noteq> None then [BodyCancel] else []))
            else
              (Inr \<lparr>exit_response = response, exit_finalResponse = Some response,
                    exit_attempts = attempts - 1\<rparr>,
               tr @ [fetch_event sr]
                  @ [ConsoleError (will_retry_message (sr_url sr) (attempts - 1))])
          else
            (Inr \<lparr>exit_response = response, exit_finalResponse = Some response, exit_attempts = attempts\<rparr>,
             tr @ [fetch_event sr]))"
  by pat_completeness auto
termination
  by (relation "measure (\<lambda>(up, sr, attempts, tr). nat attempts)") auto

declare range_loop.simps [simp del]

text \<open>
  What the upstream yields at its \<open>i\<close>-th fetch when that fetch carries the
  signed request.
\<close>

definition upstream_reply :: "upstream \<Rightarrow> signed_request \<Rightarrow> nat \<Rightarrow> error + response" where
  "upstream_reply up sr i = up i (sr_url sr) (sr_method sr) (sr_headers sr)"

text \<open>
  Lines 183-231 and 247: the final upstream response. With a \<^verbatim>\<open>range\<close> header
  in the signed request, the loop, the safeguard for an unset
  \<^verbatim>\<open>finalResponse\<close> and the diagnostic of exhaustion; without one, a single
  fetch.
\<close>

definition final_upstream_response ::
  "upstream \<Rightarrow> signed_request \<Rightarrow> event list \<Rightarrow> (error + response) \<times> event list" where
  "final_upstream_response up signedRequest tr =
     (if Headers_has (sr_headers signedRequest) ''range'' then
        (case fst (range_loop up signedRequest RANGE_RETRY_ATTEMPTS tr) of
           Inl err \<Rightarrow> (Inl err, snd (range_loop up signedRequest RANGE_RETRY_ATTEMPTS tr))
         | Inr x \<Rightarrow>
             let finalResponse =
                   (case exit_finalResponse x of None \<Rightarrow> exit_response x | Some r \<Rightarrow> r)
             in (Inr finalResponse,
                 snd (range_loop up signedRequest RANGE_RETRY_ATTEMPTS tr)
                   @ (if exit_attempts x \<le> 0 \<and> \<not> Headers_has (headers finalResponse) ''content-range''
                      then [ConsoleError (exhausted_message (sr_url signedRequest))] else [])))
      else
        (case fetch_result up signedRequest tr of
           Inl err \<Rightarrow> (Inl err, tr @ [fetch_event signedRequest])
         | Inr response \<Rightarrow> (Inr response, tr @ [fetch_event signedRequest])))"

text \<open>
  Lines 233-241 and 249-257, the same in both branches: the response handed
  back for the final upstream response.
\<close>

definition respond :: "string \<Rightarrow> response \<Rightarrow> response" where
  "respond requestMethod finalResponse =
     (if requestMethod = ''HEAD''
      then addCacheHeaders (createHeadResponse finalResponse) BROWSER_CACHE_TTL_SECONDS
      else addCacheHeaders finalResponse BROWSER_CACHE_TTL_SECONDS)"

text \<open>Lines 147-177: the headers, the client and the call of the signer.\<close>

definition sign_event :: "request \<Rightarrow> env \<Rightarrow> event" where
  "sign_event req e =
     Sign (URL_toString (upstream_url e req)) ''GET'' (filterHeaders (req_headers req) e)"

definition signedRequest :: "signer \<Rightarrow> request \<Rightarrow> env \<Rightarrow> signed_request" where
  "signedRequest sign req e =
     sign \<lparr>accessKeyId = B2_APPLICATION_KEY_ID e, secretAccessKey = B2_APPLICATION_KEY e,
           service = ''s3''\<rparr>
       (URL_toString (upstream_url e req)) ''GET'' (filterHeaders (req_headers req) e)"

text \<open>The exported \<^verbatim>\<open>fetch(request, env)\<close>: the outcome and the events of the run.\<close>

definition fetch :: "signer \<Rightarrow> upstream \<Rightarrow> request \<Rightarrow> env \<Rightarrow> (error + response) \<times> event list" where
  "fetch sign up req e =
     (if req_method req \<notin> set [''GET'', ''HEAD''] then
        (Inr \<lparr>status = 405, statusText = ''Method Not Allowed'', headers = Headers_new [],
              body = None\<rparr>, [])
      else if isListBucketRequest e (normalized_path req) \<and> String (ALLOW_LIST_BUCKET e) \<noteq> ''true'' then
        (Inr \<lparr>status = 404, statusText = ''Not Found'', headers = Headers_new [], body = None\<rparr>, [])
      else
        let requestMethod = req_method req;
            upstream = final_upstream_response up (signedRequest sign req e) [sign_event req e]
        in (case fst upstream of
              Inl err \<Rightarrow> (Inl err, snd upstream)
            | Inr finalResponse \<Rightarrow> (Inr (respond requestMethod finalResponse), snd upstream)))"

text \<open>
  A request reaches the upstream-forwarding path when neither of the two
  rejections of lines 95-122 applies.
\<close>

definition reaches_upstream :: "request \<Rightarrow> env \<Rightarrow> bool" where
  "reaches_upstream req e =
     ((req_method req = ''GET'' \<or> req_method req = ''HEAD'')
      \<and> \<not> (isListBucketRequest e (normalized_path req) \<and> String (ALLOW_LIST_BUCKET e) \<noteq> ''true''))"

text \<open>
  The events one retried attempt adds: the fetch of the signed request, the
  warning, and the release of the body.
\<close>

definition retry_event :: "signed_request \<Rightarrow> event \<Rightarrow> bool" where
  "retry_event sr ev =
     (ev = fetch_event sr \<or> ev = BodyCancel
      \<or> (\<exists>n. ev = ConsoleError (will_retry_message (sr_url sr) n)))"

section \<open>Concrete inputs\<close>

text \<open>
  The inputs at which the theorems below are instantiated: a request for a
  path with given method and headers, a configuration with given bucket mode
  and allow-list (listing disabled, download mode enabled), a signer that adds
  one header, an upstream that replays a list of responses in order and fails
  afterwards, and responses: a 200 with a given body and no
  \<^verbatim>\<open>content-range\<close>, and a 200, a 206 and a 403.
\<close>

definition example_request :: "string \<Rightarrow> string \<Rightarrow> headers \<Rightarrow> request" where
  "example_request m p hs =
     \<lparr>req_method = m,
      req_url = \<lparr>protocol = ''http:'', hostname = ''media.example.dev'', port = ''8787'',
                 pathname = p, search = []\<rparr>,
      req_headers = hs\<rparr>"

definition example_env :: "string \<Rightarrow> string list option \<Rightarrow> env" where
  "example_env mode allowed =
     \<lparr>BUCKET_NAME = mode, B2_ENDPOINT = ''s3.example.com'', B2_APPLICATION_KEY_ID = ''id'',
      B2_APPLICATION_KEY = ''key'', ALLOWED_HEADERS = allowed,
      ALLOW_LIST_BUCKET = JString ''false'', RCLONE_DOWNLOAD = JString ''true''\<rparr>"

definition example_sign :: signer where
  "example_sign client u m hs =
     \<lparr>sr_url = u, sr_method = m, sr_headers = hs @ [(''authorization'', accessKeyId client)]\<rparr>"

definition example_upstream :: "response list \<Rightarrow> upstream" where
  "example_upstream rs i u m hs =
     (if i < length rs then Inr (rs ! i) else Inl (NetworkError ''connection refused''))"

definition example_ignored :: "string \<Rightarrow> response" where
  "example_ignored b =
     \<lparr>status = 200, statusText = ''OK'', headers = [(''Content-Type'', ''text/plain'')],
      body = Some b\<rparr>"

definition example_200 :: response where
  "example_200 =
     \<lparr>status = 200, statusText = ''OK'',
      headers = [(''Content-Type'', ''text/plain''), (''Cache-Control'', ''no-store'')],
      body = Some ''0123456789abcdef''\<rparr>"

definition example_206 :: response where
  "example_206 =
     \<lparr>status = 206, statusText = ''Partial Content'',
      headers = [(''Content-Type'', ''text/plain''), (''Content-Range'', ''bytes 0-3/16'')],
      body = Some ''0123''\<rparr>"

definition example_403 :: response where
  "example_403 =
     \<lparr>status = 403, statusText = ''Forbidden'',
      headers = [(''Content-Type'', ''application/xml'')],
      body = Some ''<Error><Code>AccessDenied</Code></Error>''\<rparr>"

section \<open>Facts about the string helpers\<close>

lemma split_length: "length (split c s) = Suc (length (filter (\<lambda>x. x = c) s))"
proof (induction s)
  case Nil
  show ?case by simp
next
  case (Cons x xs)
  then have "split c xs \<noteq> []" by auto
  with Cons show ?case by (cases "split c xs") auto
qed

section \<open>The retry loop, one iteration at a time\<close>

lemma fetch_count_append: "fetch_count (tr @ ext) = fetch_count tr + fetch_count ext"
  by (simp add: fetch_count_def)

lemma fetch_count_fetch_event: "fetch_count [fetch_event sr] = 1"
  by (simp add: fetch_count_def fetch_event_def)

lemma fetch_count_sign_event: "fetch_count [sign_event req e] = 0"
  by (simp add: fetch_count_def sign_event_def)

lemma fetch_result_reply: "fetch_result up sr tr = upstream_reply up sr (fetch_count tr)"
  by (simp add: fetch_result_def upstream_reply_def)

lemma range_loop_error:
  assumes "upstream_reply up sr (fetch_count tr) = Inl err"
  shows "range_loop up sr a tr = (Inl err, tr @ [fetch_event sr])"
  using assms by (subst range_loop.simps) (simp add: fetch_result_reply)

lemma range_loop_content_range:
  assumes "upstream_reply up sr (fetch_count tr) = Inr r"
    and "Headers_has (headers r) ''content-range''"
  shows "range_loop up sr a tr =
           (Inr \<lparr>exit_response = r, exit_finalResponse = Some r, exit_attempts = a\<rparr>,
            tr @ [fetch_event sr]
               @ (if a < RANGE_RETRY_ATTEMPTS
                  then [ConsoleLog (retry_succeeded_message (sr_url sr))] else []))"
  using assms by (subst range_loop.simps) (simp add: fetch_result_reply)

lemma range_loop_not_ok:
  assumes "upstream_reply up sr (fetch_count tr) = Inr r"
    and "\<not> Headers_has (headers r) ''content-range''" and "\<not> ok r"
  shows "range_loop up sr a tr =
           (Inr \<lparr>exit_response = r, exit_finalResponse = Some r, exit_attempts = a\<rparr>,
            tr @ [fetch_event sr])"
  using assms by (subst range_loop.simps) (simp add: fetch_result_reply)

lemma range_loop_last:
  assumes "upstream_reply up sr (fetch_count tr) = Inr r"
    and "\<not> Headers_has (headers r) ''content-range''" and "ok r" and "a \<le> 1"
  shows "range_loop up sr a tr =
           (Inr \<lparr>exit_response = r, exit_finalResponse = Some r, exit_attempts = a - 1\<rparr>,
            tr @ [fetch_event sr, ConsoleError (will_retry_message (sr_url sr) (a - 1))])"
  using assms by (subst range_loop.simps) (simp add: fetch_result_reply)

lemma range_loop_retry:
  assumes "upstream_reply up sr (fetch_count tr) = Inr r"
    and "\<not> Headers_has (headers r) ''content-range''" and "ok r" and "1 < a"
  shows "range_loop up sr a tr =
           range_loop up sr (a - 1)
             (tr @ [fetch_event sr, ConsoleError (will_retry_message (sr_url sr) (a - 1))]
                 @ (if body r \<noteq> None then [BodyCancel] else []))"
  using assms by (subst range_loop.simps) (simp add: fetch_result_reply)

lemma will_retry_not_exhausted: "will_retry_message u n \<noteq> exhausted_message u'"
  by (simp add: will_retry_message_def exhausted_message_def)

lemma retry_succeeded_not_exhausted: "retry_succeeded_message u \<noteq> exhausted_message u'"
  by (simp add: retry_succeeded_message_def exhausted_message_def)

lemma retry_event_not_exhausted:
  assumes "retry_event sr ev"
  shows "ev \<noteq> ConsoleError (exhausted_message u)"
proof
  assume "ev = ConsoleError (exhausted_message u)"
  with assms have "\<exists>n. will_retry_message (sr_url sr) n = exhausted_message u"
    by (auto simp add: retry_event_def fetch_event_def)
  then show False by (simp add: will_retry_not_exhausted)
qed

lemma retry_event_not_sign:
  assumes "retry_event sr ev"
  shows "\<not> is_Sign ev"
  using assms by (auto simp add: retry_event_def fetch_event_def)

text \<open>
  After \<open>k\<close> responses in a row that are successful and lack
  \<^verbatim>\<open>content-range\<close>, with more than \<open>k\<close> attempts left, the loop stands
  at its next iteration with \<open>k\<close> attempts fewer and \<open>k\<close> fetches more.
\<close>

lemma range_loop_skip:
  assumes "\<forall>j<k. \<exists>r. upstream_reply up sr (fetch_count tr + j) = Inr r
                    \<and> ok r \<and> \<not> Headers_has (headers r) ''content-range''"
    and "int k < a"
  shows "\<exists>ext. range_loop up sr a tr = range_loop up sr (a - int k) (tr @ ext)
             \<and> fetch_count ext = k \<and> (\<forall>ev\<in>set ext. retry_event sr ev)"
  using assms
proof (induction k arbitrary: a tr)
  case 0
  have "range_loop up sr a tr = range_loop up sr (a - int 0) (tr @ [])" by simp
  moreover have "fetch_count [] = 0" by (simp add: fetch_count_def)
  ultimately show ?case by (metis empty_iff list.set(1))
next
  case (Suc k)
  from Suc.prems(1) obtain r where r: "upstream_reply up sr (fetch_count tr) = Inr r"
    "ok r" "\<not> Headers_has (headers r) ''content-range''"
    by (metis add.right_neutral zero_less_Suc)
  define step where "step = [fetch_event sr, ConsoleError (will_retry_message (sr_url sr) (a - 1))]
                 @ (if body r \<noteq> None then [BodyCancel] else [])"
  have count_step: "fetch_count step = 1"
    by (simp add: step_def fetch_count_def fetch_event_def)
  have events_step: "\<forall>ev\<in>set step. retry_event sr ev"
    by (auto simp add: step_def retry_event_def)
  from Suc.prems(2) have "1 < a" by simp
  with r have first: "range_loop up sr a tr = range_loop up sr (a - 1) (tr @ step)"
    unfolding step_def by (simp add: range_loop_retry)
  have "\<forall>j<k. \<exists>r. upstream_reply up sr (fetch_count (tr @ step) + j) = Inr r
                    \<and> ok r \<and> \<not> Headers_has (headers r) ''content-range''"
  proof (intro allI impI)
    fix j assume "j < k"
    then have "Suc j < Suc k" by simp
    with Suc.prems(1) have "\<exists>r. upstream_reply up sr (fetch_count tr + Suc j) = Inr r
                    \<and> ok r \<and> \<not> Headers_has (headers r) ''content-range''"
      by blast
    then show "\<exists>r. upstream_reply up sr (fetch_count (tr @ step) + j) = Inr r
                    \<and> ok r \<and> \<not> Headers_has (headers r) ''content-range''"
      by (simp add: fetch_count_append count_step)
  qed
  moreover from Suc.prems(2) have "int k < a - 1" by simp
  ultimately obtain ext where ext:
    "range_loop up sr (a - 1) (tr @ step) = range_loop up sr (a - 1 - int k) ((tr @ step) @ ext)"
    "fetch_count ext = k" "\<forall>ev\<in>set ext. retry_event sr ev"
    using Suc.IH [of "tr @ step" "a - 1"] by blast
  have "range_loop up sr a tr = range_loop up sr (a - int (Suc k)) (tr @ (step @ ext))"
    using first ext(1) by (simp add: algebra_simps)
  moreover have "fetch_count (step @ ext) = Suc k"
    by (simp add: fetch_count_append count_step ext(2))
  moreover have "\<forall>ev\<in>set (step @ ext). retry_event sr ev"
    using events_step ext(3) by auto
  ultimately show ?case by blast
qed

text \<open>
  Whatever the upstream does, the loop only adds events to the run: no call of
  the signer, at least one fetch and at most as many as it had attempts, and
  every fetch with the URL, method and headers of the signed request.
\<close>

lemma range_loop_events:
  "\<exists>ext. snd (range_loop up sr a tr) = tr @ ext
         \<and> (\<forall>ev\<in>set ext. \<not> is_Sign ev \<and> (is_Fetch ev \<longrightarrow> ev = fetch_event sr))
         \<and> 0 < fetch_count ext \<and> int (fetch_count ext) \<le> max 1 a"
proof (induction up sr a tr rule: range_loop.induct)
  case (1 up sr a tr)
  have one: "fetch_count [fetch_event sr] = 1" by (rule fetch_count_fetch_event)
  show ?case
  proof (cases "fetch_result up sr tr")
    case (Inl err)
    then have "snd (range_loop up sr a tr) = tr @ [fetch_event sr]"
      by (simp add: range_loop_error fetch_result_reply [symmetric])
    moreover have "\<forall>ev\<in>set [fetch_event sr]. \<not> is_Sign ev \<and> (is_Fetch ev \<longrightarrow> ev = fetch_event sr)"
      by (simp add: fetch_event_def)
    ultimately show ?thesis using one by (metis less_numeral_extra(1) max.cobounded1 of_nat_1)
  next
    case (Inr r)
    then have reply: "upstream_reply up sr (fetch_count tr) = Inr r"
      by (simp add: fetch_result_reply)
    consider (cr) "Headers_has (headers r) ''content-range''"
      | (bad) "\<not> Headers_has (headers r) ''content-range''" "\<not> ok r"
      | (last) "\<not> Headers_has (headers r) ''content-range''" "ok r" "a \<le> 1"
      | (again) "\<not> Headers_has (headers r) ''content-range''" "ok r" "1 < a"
      by linarith
    then show ?thesis
    proof cases
      case cr
      define ext where "ext = [fetch_event sr]
               @ (if a < RANGE_RETRY_ATTEMPTS
                  then [ConsoleLog (retry_succeeded_message (sr_url sr))] else [])"
      have "snd (range_loop up sr a tr) = tr @ ext"
        using reply cr by (simp add: range_loop_content_range ext_def)
      moreover have "\<forall>ev\<in>set ext. \<not> is_Sign ev \<and> (is_Fetch ev \<longrightarrow> ev = fetch_event sr)"
        by (simp add: ext_def fetch_event_def)
      moreover have "fetch_count ext = 1"
        by (simp add: ext_def fetch_count_def fetch_event_def)
      ultimately show ?thesis by (metis less_numeral_extra(1) max.cobounded1 of_nat_1)
    next
      case bad
      have "snd (range_loop up sr a tr) = tr @ [fetch_event sr]"
        using reply bad by (simp add: range_loop_not_ok)
      moreover have "\<forall>ev\<in>set [fetch_event sr]. \<not> is_Sign ev \<and> (is_Fetch ev \<longrightarrow> ev = fetch_event sr)"
        by (simp add: fetch_event_def)
      ultimately show ?thesis using one by (metis less_numeral_extra(1) max.cobounded1 of_nat_1)
    next
      case last
      define ext where "ext = [fetch_event sr, ConsoleError (will_retry_message (sr_url sr) (a - 1))]"
      have "snd (range_loop up sr a tr) = tr @ ext"
        using reply last by (simp add: range_loop_last ext_def)
      moreover have "\<forall>ev\<in>set ext. \<not> is_Sign ev \<and> (is_Fetch ev \<longrightarrow> ev = fetch_event sr)"
        by (simp add: ext_def fetch_event_def)
      moreover have "fetch_count ext = 1"
        by (simp add: ext_def fetch_count_def fetch_event_def)
      ultimately show ?thesis by (metis less_numeral_extra(1) max.cobounded1 of_nat_1)
    next
      case again
      define step where "step = [fetch_event sr, ConsoleError (will_retry_message (sr_url sr) (a - 1))]
                 @ (if body r \<noteq> None then [BodyCancel] else [])"
      have unfold: "range_loop up sr a tr = range_loop up sr (a - 1) (tr @ step)"
        using reply again unfolding step_def by (simp add: range_loop_retry)
      have "0 < a - 1" using again(3) by simp
      with Inr again(1,2) obtain ext where ext:
        "snd (range_loop up sr (a - 1) (tr @ step)) = (tr @ step) @ ext"
        "\<forall>ev\<in>set ext. \<not> is_Sign ev \<and> (is_Fetch ev \<longrightarrow> ev = fetch_event sr)"
        "0 < fetch_count ext" "int (fetch_count ext) \<le> max 1 (a - 1)"
        using "1.IH" [of r] unfolding step_def by auto
      have "snd (range_loop up sr a tr) = tr @ (step @ ext)"
        using unfold ext(1) by simp
      moreover have "\<forall>ev\<in>set (step @ ext). \<not> is_Sign ev \<and> (is_Fetch ev \<longrightarrow> ev = fetch_event sr)"
        using ext(2) by (auto simp add: step_def fetch_event_def)
      moreover have "fetch_count (step @ ext) = Suc (fetch_count ext)"
        by (simp add: fetch_count_append step_def fetch_count_def fetch_event_def)
      moreover have "int (Suc (fetch_count ext)) \<le> max 1 a"
        using ext(4) again(3) by simp
      ultimately show ?thesis by (metis zero_less_Suc)
    qed
  qed
qed

section \<open>The forwarding path\<close>

lemma fetch_forwarded:
  assumes "reaches_upstream req e"
  shows "fetch sign up req e =
           (case fst (final_upstream_response up (signedRequest sign req e) [sign_event req e]) of
              Inl err \<Rightarrow>
                (Inl err, snd (final_upstream_response up (signedRequest sign req e) [sign_event req e]))
            | Inr finalResponse \<Rightarrow>
                (Inr (respond (req_method req) finalResponse),
                 snd (final_upstream_response up (signedRequest sign req e) [sign_event req e])))"
  using assms by (auto simp add: fetch_def reaches_upstream_def Let_def)

lemma fetch_forwarded_events:
  assumes "reaches_upstream req e"
  shows "snd (fetch sign up req e) =
           snd (final_upstream_response up (signedRequest sign req e) [sign_event req e])"
  using assms by (simp add: fetch_forwarded split: sum.splits)

lemma fetch_forwarded_response:
  assumes "reaches_upstream req e"
    and "fst (final_upstream_response up (signedRequest sign req e) [sign_event req e]) = Inr r"
  shows "fst (fetch sign up req e) = Inr (respond (req_method req) r)"
  using assms by (simp add: fetch_forwarded)

lemma count_list_none:
  assumes "\<forall>ev\<in>set xs. ev \<noteq> x"
  shows "count_list xs x = 0"
  using assms by (induction xs) auto

text \<open>
  The range branch after \<open>k\<close> ignored ranges, when the next response ends
  the loop with attempts left: the response is final and the run has
  \<open>k + 1\<close> fetches and no diagnostic of exhaustion.
\<close>

lemma final_upstream_stops:
  assumes range: "Headers_has (sr_headers sr) ''range''"
    and start: "fetch_count tr = 0"
    and k: "k < 3"
    and before: "\<forall>j<k. \<exists>r'. upstream_reply up sr j = Inr r'
                    \<and> ok r' \<and> \<not> Headers_has (headers r') ''content-range''"
    and reply: "upstream_reply up sr k = Inr r"
    and stop: "Headers_has (headers r) ''content-range'' \<or> \<not> ok r"
  shows "fst (final_upstream_response up sr tr) = Inr r
       \<and> fetch_count (snd (final_upstream_response up sr tr)) = Suc k"
proof -
  from before start have "\<forall>j<k. \<exists>r'. upstream_reply up sr (fetch_count tr + j) = Inr r'
                    \<and> ok r' \<and> \<not> Headers_has (headers r') ''content-range''"
    by simp
  moreover from k have "int k < RANGE_RETRY_ATTEMPTS"
    by (simp add: RANGE_RETRY_ATTEMPTS_def)
  ultimately obtain ext where ext:
    "range_loop up sr RANGE_RETRY_ATTEMPTS tr
       = range_loop up sr (RANGE_RETRY_ATTEMPTS - int k) (tr @ ext)"
    "fetch_count ext = k"
    using range_loop_skip [of k up sr tr RANGE_RETRY_ATTEMPTS] by blast
  have here: "upstream_reply up sr (fetch_count (tr @ ext)) = Inr r"
    using reply by (simp add: fetch_count_append start ext(2))
  have left: "0 < RANGE_RETRY_ATTEMPTS - int k"
    using k by (simp add: RANGE_RETRY_ATTEMPTS_def)
  from stop show ?thesis
  proof
    assume cr: "Headers_has (headers r) ''content-range''"
    have "range_loop up sr RANGE_RETRY_ATTEMPTS tr =
           (Inr \<lparr>exit_response = r, exit_finalResponse = Some r,
                 exit_attempts = RANGE_RETRY_ATTEMPTS - int k\<rparr>,
            (tr @ ext) @ [fetch_event sr]
               @ (if RANGE_RETRY_ATTEMPTS - int k < RANGE_RETRY_ATTEMPTS
                  then [ConsoleLog (retry_succeeded_message (sr_url sr))] else []))"
      using ext(1) range_loop_content_range [OF here cr] by simp
    moreover have "fetch_count ((tr @ ext) @ [fetch_event sr]
               @ (if RANGE_RETRY_ATTEMPTS - int k < RANGE_RETRY_ATTEMPTS
                  then [ConsoleLog (retry_succeeded_message (sr_url sr))] else [])) = Suc k"
      using start ext(2) by (simp add: fetch_count_def fetch_event_def)
    ultimately show ?thesis
      using range cr left by (simp add: final_upstream_response_def)
  next
    assume bad: "\<not> ok r"
    show ?thesis
    proof (cases "Headers_has (headers r) ''content-range''")
      case True
      have "range_loop up sr RANGE_RETRY_ATTEMPTS tr =
           (Inr \<lparr>exit_response = r, exit_finalResponse = Some r,
                 exit_attempts = RANGE_RETRY_ATTEMPTS - int k\<rparr>,
            (tr @ ext) @ [fetch_event sr]
               @ (if RANGE_RETRY_ATTEMPTS - int k < RANGE_RETRY_ATTEMPTS
                  then [ConsoleLog (retry_succeeded_message (sr_url sr))] else []))"
        using ext(1) range_loop_content_range [OF here True] by simp
      moreover have "fetch_count ((tr @ ext) @ [fetch_event sr]
               @ (if RANGE_RETRY_ATTEMPTS - int k < RANGE_RETRY_ATTEMPTS
                  then [ConsoleLog (retry_succeeded_message (sr_url sr))] else [])) = Suc k"
        using start ext(2) by (simp add: fetch_count_def fetch_event_def)
      ultimately show ?thesis
        using range True left by (simp add: final_upstream_response_def)
    next
      case False
      have "range_loop up sr RANGE_RETRY_ATTEMPTS tr =
           (Inr \<lparr>exit_response = r, exit_finalResponse = Some r,
                 exit_attempts = RANGE_RETRY_ATTEMPTS - int k\<rparr>,
            (tr @ ext) @ [fetch_event sr])"
        using ext(1) range_loop_not_ok [OF here False bad] by simp
      moreover have "fetch_count ((tr @ ext) @ [fetch_event sr]) = Suc k"
        using start ext(2) by (simp add: fetch_count_def fetch_event_def)
      ultimately show ?thesis
        using range left by (simp add: final_upstream_response_def)
    qed
  qed
qed

text \<open>
  The range branch when three responses in a row are successful and lack
  \<^verbatim>\<open>content-range\<close>: the third is final, after three fetches, and the
  diagnostic of exhaustion is the last event, the only one of its kind.
\<close>

lemma final_upstream_exhausted:
  assumes range: "Headers_has (sr_headers sr) ''range''"
    and start: "fetch_count tr = 0"
    and clean: "count_list tr (ConsoleError (exhausted_message (sr_url sr))) = 0"
    and r1: "upstream_reply up sr 0 = Inr r1" "ok r1" "\<not> Headers_has (headers r1) ''content-range''"
    and r2: "upstream_reply up sr 1 = Inr r2" "ok r2" "\<not> Headers_has (headers r2) ''content-range''"
    and r3: "upstream_reply up sr 2 = Inr r3" "ok r3" "\<not> Headers_has (headers r3) ''content-range''"
  shows "fst (final_upstream_response up sr tr) = Inr r3
       \<and> fetch_count (snd (final_upstream_response up sr tr)) = 3
       \<and> count_list (snd (final_upstream_response up sr tr))
           (ConsoleError (exhausted_message (sr_url sr))) = 1"
proof -
  have "\<forall>j<2. \<exists>r'. upstream_reply up sr (fetch_count tr + j) = Inr r'
                    \<and> ok r' \<and> \<not> Headers_has (headers r') ''content-range''"
  proof (intro allI impI)
    fix j :: nat assume "j < 2"
    then consider "j = 0" | "j = 1" by linarith
    then show "\<exists>r'. upstream_reply up sr (fetch_count tr + j) = Inr r'
                    \<and> ok r' \<and> \<not> Headers_has (headers r') ''content-range''"
      using r1 r2 start by cases auto
  qed
  then obtain ext where ext:
    "range_loop up sr RANGE_RETRY_ATTEMPTS tr
       = range_loop up sr (RANGE_RETRY_ATTEMPTS - int 2) (tr @ ext)"
    "fetch_count ext = 2" "\<forall>ev\<in>set ext. retry_event sr ev"
    using range_loop_skip [of 2 up sr tr RANGE_RETRY_ATTEMPTS]
    by (auto simp add: RANGE_RETRY_ATTEMPTS_def)
  have here: "upstream_reply up sr (fetch_count (tr @ ext)) = Inr r3"
    using r3(1) by (simp add: fetch_count_append start ext(2) numeral_2_eq_2)
  have "RANGE_RETRY_ATTEMPTS - int 2 \<le> 1"
    by (simp add: RANGE_RETRY_ATTEMPTS_def)
  from range_loop_last [OF here r3(3) r3(2) this] ext(1)
  have loop: "range_loop up sr RANGE_RETRY_ATTEMPTS tr =
      (Inr \<lparr>exit_response = r3, exit_finalResponse = Some r3, exit_attempts = 0\<rparr>,
       (tr @ ext) @ [fetch_event sr, ConsoleError (will_retry_message (sr_url sr) 0)])"
    by (simp add: RANGE_RETRY_ATTEMPTS_def)
  define u where "u = sr_url sr"
  have result: "final_upstream_response up sr tr =
      (Inr r3, tr @ ext @ [fetch_event sr, ConsoleError (will_retry_message u 0),
                           ConsoleError (exhausted_message u)])"
    using range r3(3) loop by (simp add: final_upstream_response_def u_def)
  have "count_list ext (ConsoleError (exhausted_message u)) = 0"
    using ext(3) retry_event_not_exhausted [of sr _ u] by (intro count_list_none) blast
  moreover have "fetch_event sr \<noteq> ConsoleError (exhausted_message u)"
    by (simp add: fetch_event_def)
  moreover have "will_retry_message u 0 \<noteq> exhausted_message u"
    by (rule will_retry_not_exhausted)
  ultimately have "count_list (snd (final_upstream_response up sr tr))
           (ConsoleError (exhausted_message u)) = 1"
    using clean by (simp add: result u_def [symmetric])
  moreover have "fetch_count (snd (final_upstream_response up sr tr)) = 3"
    using start ext(2) by (simp add: result fetch_count_def fetch_event_def)
  ultimately show ?thesis by (simp add: result u_def)
qed

text \<open>The events of the forwarding after the call of the signer.\<close>

lemma final_upstream_events:
  "\<exists>ext. snd (final_upstream_response up sr tr) = tr @ ext
         \<and> (\<forall>ev\<in>set ext. \<not> is_Sign ev \<and> (is_Fetch ev \<longrightarrow> ev = fetch_event sr))
         \<and> 0 < fetch_count ext \<and> fetch_count ext \<le> 3"
proof (cases "Headers_has (sr_headers sr) ''range''")
  case True
  obtain ext where ext: "snd (range_loop up sr RANGE_RETRY_ATTEMPTS tr) = tr @ ext"
    "\<forall>ev\<in>set ext. \<not> is_Sign ev \<and> (is_Fetch ev \<longrightarrow> ev = fetch_event sr)"
    "0 < fetch_count ext" "int (fetch_count ext) \<le> max 1 RANGE_RETRY_ATTEMPTS"
    using range_loop_events [of up sr RANGE_RETRY_ATTEMPTS tr] by blast
  define tail where "tail = snd (final_upstream_response up sr tr)"
  have "tail = tr @ ext \<or> tail = tr @ ext @ [ConsoleError (exhausted_message (sr_url sr))]"
    using True ext(1) unfolding tail_def
    by (simp add: final_upstream_response_def Let_def split: sum.splits)
  then show ?thesis
  proof
    assume "tail = tr @ ext"
    with ext show ?thesis unfolding tail_def
      by (intro exI [of _ ext]) (simp add: RANGE_RETRY_ATTEMPTS_def)
  next
    assume "tail = tr @ ext @ [ConsoleError (exhausted_message (sr_url sr))]"
    with ext show ?thesis unfolding tail_def
      by (intro exI [of _ "ext @ [ConsoleError (exhausted_message (sr_url sr))]"])
        (simp add: RANGE_RETRY_ATTEMPTS_def fetch_count_append fetch_count_def)
  qed
next
  case False
  then have "snd (final_upstream_response up sr tr) = tr @ [fetch_event sr]"
    by (simp add: final_upstream_response_def split: sum.splits)
  then show ?thesis
    by (intro exI [of _ "[fetch_event sr]"]) (simp add: fetch_count_def fetch_event_def)
qed

section \<open>Requests the handler answers itself\<close>

text \<open>
  C9. A request whose method is neither GET nor HEAD is answered with status
  405 and no body, and the run has no event at all: nothing is signed and
  nothing is fetched.
\<close>

theorem C9_method_not_allowed:
  assumes "req_method req \<noteq> ''GET''" and "req_method req \<noteq> ''HEAD''"
  shows "fetch sign up req e =
           (Inr \<lparr>status = 405, statusText = ''Method Not Allowed'', headers = [], body = None\<rparr>, [])"
  using assms by (simp add: fetch_def Headers_new_def)

theorem C9_method_not_allowed_witness:
  "fetch example_sign (example_upstream [example_200])
     (example_request ''POST'' ''/bucket/key'' []) (example_env ''$path'' None) =
   (Inr \<lparr>status = 405, statusText = ''Method Not Allowed'', headers = [], body = None\<rparr>, [])"
  using C9_method_not_allowed
    [of "example_request ''POST'' ''/bucket/key'' []" example_sign
        "example_upstream [example_200]" "example_env ''$path'' None"]
  by (simp add: example_request_def)

text \<open>
  C6. A GET or HEAD request is answered with status 404 and no body, with no
  event in the run, when listing is not enabled (the configured value does not
  read \<open>true\<close>) and either the bucket mode is \<open>$path\<close> and the normalized path
  has fewer than two segments, or the mode is another one and the normalized
  path is empty.
\<close>

theorem C6_list_bucket_rejected:
  assumes "req_method req = ''GET'' \<or> req_method req = ''HEAD''"
    and "(BUCKET_NAME e = ''$path'' \<and> length (split CHR ''/'' (normalized_path req)) < 2)
         \<or> (BUCKET_NAME e \<noteq> ''$path'' \<and> normalized_path req = [])"
    and "String (ALLOW_LIST_BUCKET e) \<noteq> ''true''"
  shows "fetch sign up req e =
           (Inr \<lparr>status = 404, statusText = ''Not Found'', headers = [], body = None\<rparr>, [])"
proof -
  from assms(2) have "isListBucketRequest e (normalized_path req)"
    by (auto simp add: isListBucketRequest_def)
  with assms(1,3) show ?thesis
    by (auto simp add: fetch_def Headers_new_def)
qed

theorem C6_list_bucket_rejected_witness:
  "length (split CHR ''/'' (normalized_path (example_request ''GET'' ''/bucket/'' []))) < 2
   \<and> fetch example_sign (example_upstream [example_200])
       (example_request ''GET'' ''/bucket/'' []) (example_env ''$path'' None) =
     (Inr \<lparr>status = 404, statusText = ''Not Found'', headers = [], body = None\<rparr>, [])"
proof -
  have path: "normalized_path (example_request ''GET'' ''/bucket/'' []) = ''bucket''"
    by (simp add: normalized_path_def example_request_def remove_leading_slash_def
        remove_trailing_slash_def)
  have segments: "length (split CHR ''/'' (normalized_path (example_request ''GET'' ''/bucket/'' []))) < 2"
    by (simp add: path)
  have mode: "BUCKET_NAME (example_env ''$path'' None) = ''$path''"
    by (simp add: example_env_def)
  have listing: "String (ALLOW_LIST_BUCKET (example_env ''$path'' None)) \<noteq> ''true''"
    by (simp add: example_env_def)
  have m: "req_method (example_request ''GET'' ''/bucket/'' []) = ''GET''"
    by (simp add: example_request_def)
  from C6_list_bucket_rejected [of "example_request ''GET'' ''/bucket/'' []"
      "example_env ''$path'' None" example_sign "example_upstream [example_200]"]
    m mode segments listing
  show ?thesis by simp
qed

section \<open>Facts about the concrete inputs\<close>

lemma example_reaches_upstream:
  assumes "m = ''GET'' \<or> m = ''HEAD''"
  shows "reaches_upstream (example_request m ''/bucket/key'' hs) (example_env ''$path'' allowed)"
  using assms
  by (simp add: reaches_upstream_def example_request_def example_env_def isListBucketRequest_def
      normalized_path_def remove_leading_slash_def remove_trailing_slash_def)

lemma example_signed_headers:
  "sr_headers (signedRequest example_sign
      (example_request m p [(''Range'', ''bytes=0-3'')]) (example_env mode None))
   = [(''range'', ''bytes=0-3''), (''authorization'', ''id'')]"
  by (simp add: signedRequest_def example_sign_def example_request_def example_env_def
      filterHeaders_def Headers_new_def Headers_entries_def toLowerCase_def lower_char_def
      UNSIGNABLE_HEADERS_def startsWith_def)

lemma example_has_range:
  "Headers_has (sr_headers (signedRequest example_sign
      (example_request m p [(''Range'', ''bytes=0-3'')]) (example_env mode None))) ''range''"
  by (simp add: example_signed_headers Headers_has_def Headers_entries_def toLowerCase_def
      lower_char_def)

lemma example_upstream_reply:
  assumes "i < length rs"
  shows "upstream_reply (example_upstream rs) sr i = Inr (rs ! i)"
  using assms by (simp add: upstream_reply_def example_upstream_def)

lemma example_200_ignored_range:
  "ok example_200 \<and> \<not> Headers_has (headers example_200) ''content-range''"
  by (simp add: ok_def example_200_def Headers_has_def Headers_entries_def toLowerCase_def
      lower_char_def)

lemma example_206_content_range: "Headers_has (headers example_206) ''content-range''"
  by (simp add: example_206_def Headers_has_def Headers_entries_def toLowerCase_def
      lower_char_def)

lemma example_403_error:
  "\<not> ok example_403 \<and> \<not> Headers_has (headers example_403) ''content-range''"
  by (simp add: ok_def example_403_def Headers_has_def Headers_entries_def toLowerCase_def
      lower_char_def)

section \<open>The one signed request\<close>




section \<open>Facts about headers\<close>

lemma lower_char_idem: "lower_char (lower_char c) = lower_char c"
  by (simp add: lower_char_def)

lemma toLowerCase_idem: "toLowerCase (toLowerCase s) = toLowerCase s"
  by (simp add: toLowerCase_def lower_char_idem)

lemma Headers_entries_idem: "Headers_entries (Headers_entries h) = Headers_entries h"
  by (simp add: Headers_entries_def toLowerCase_idem)

text \<open>The pairs a lookup of a name sees.\<close>

lemma Headers_has_filter:
  "Headers_has h name = (filter (\<lambda>pair. fst pair = toLowerCase name) (Headers_entries h) \<noteq> [])"
  by (force simp add: Headers_has_def filter_empty_conv)

lemma Headers_get_filter:
  "Headers_get h name =
     (if filter (\<lambda>pair. fst pair = toLowerCase name) (Headers_entries h) = [] then None
      else Some (join_values (map snd
             (filter (\<lambda>pair. fst pair = toLowerCase name) (Headers_entries h)))))"
  by (simp add: Headers_get_def Headers_has_filter)

lemma Headers_get_entries: "Headers_get (Headers_entries h) name = Headers_get h name"
  by (simp add: Headers_get_filter Headers_entries_idem)

lemma Headers_has_entries: "Headers_has (Headers_entries h) name = Headers_has h name"
  by (simp add: Headers_has_filter Headers_entries_idem)

lemma set_first_same:
  assumes "toLowerCase n = n"
  shows "filter (\<lambda>pair. fst pair = n) (Headers_entries (set_first n v h))
           = (if filter (\<lambda>pair. fst pair = n) (Headers_entries h) = [] then [] else [(n, v)])"
proof (induction h)
  case Nil
  show ?case by (simp add: Headers_entries_def)
next
  case (Cons pair rest)
  show ?case
  proof (cases "toLowerCase (fst pair) = n")
    case True
    have "filter (\<lambda>p. fst p = n) (Headers_entries (filter (\<lambda>p. toLowerCase (fst p) \<noteq> n) rest)) = []"
      by (auto simp add: Headers_entries_def filter_empty_conv)
    with True show ?thesis by (simp add: Headers_entries_def)
  next
    case False
    with Cons show ?thesis by (simp add: Headers_entries_def)
  qed
qed

lemma set_first_others:
  "filter (\<lambda>pair. fst pair \<noteq> n) (Headers_entries (set_first n v h))
     = filter (\<lambda>pair. fst pair \<noteq> n) (Headers_entries h)"
proof (induction h)
  case Nil
  show ?case by simp
next
  case (Cons pair rest)
  have "filter (\<lambda>p. fst p \<noteq> n) (Headers_entries (filter (\<lambda>p. toLowerCase (fst p) \<noteq> n) rest))
          = filter (\<lambda>p. fst p \<noteq> n) (Headers_entries rest)"
    by (induction rest) (auto simp add: Headers_entries_def)
  with Cons show ?case by (simp add: Headers_entries_def)
qed

lemma Headers_set_same:
  "filter (\<lambda>pair. fst pair = toLowerCase name) (Headers_entries (Headers_set h name v))
     = [(toLowerCase name, v)]"
proof (cases "Headers_has h name")
  case True
  then show ?thesis
    by (simp add: Headers_set_def set_first_same toLowerCase_idem Headers_has_filter)
next
  case False
  then have "filter (\<lambda>pair. fst pair = toLowerCase name) (Headers_entries h) = []"
    by (simp add: Headers_has_filter)
  with False show ?thesis
    by (simp add: Headers_set_def Headers_entries_def toLowerCase_idem)
qed

lemma Headers_set_others:
  "filter (\<lambda>pair. fst pair \<noteq> toLowerCase name) (Headers_entries (Headers_set h name v))
     = filter (\<lambda>pair. fst pair \<noteq> toLowerCase name) (Headers_entries h)"
proof (cases "Headers_has h name")
  case True
  then show ?thesis by (simp add: Headers_set_def set_first_others)
next
  case False
  then show ?thesis by (simp add: Headers_set_def Headers_entries_def toLowerCase_idem)
qed

lemma Headers_get_set_same: "Headers_get (Headers_set h name v) name = Some v"
  by (simp add: Headers_get_filter Headers_set_same)

lemma filter_other_name:
  assumes "m \<noteq> n"
  shows "filter (\<lambda>pair. fst pair = m) xs = filter (\<lambda>pair. fst pair = m) (filter (\<lambda>pair. fst pair \<noteq> n) xs)"
  using assms by (induction xs) auto

lemma Headers_get_set_other:
  assumes "toLowerCase other \<noteq> toLowerCase name"
  shows "Headers_get (Headers_set h name v) other = Headers_get h other"
proof -
  have "filter (\<lambda>pair. fst pair = toLowerCase other) (Headers_entries (Headers_set h name v))
      = filter (\<lambda>pair. fst pair = toLowerCase other) (Headers_entries h)"
    using filter_other_name [OF assms, of "Headers_entries (Headers_set h name v)"]
      filter_other_name [OF assms, of "Headers_entries h"]
    by (simp add: Headers_set_others)
  then show ?thesis by (simp add: Headers_get_filter)
qed

lemma cache_control_lower: "toLowerCase ''Cache-Control'' = ''cache-control''"
  by (simp add: toLowerCase_def lower_char_def)

lemma cache_ttl_decimal: "show_nat BROWSER_CACHE_TTL_SECONDS = ''2592000''"
  by (simp add: BROWSER_CACHE_TTL_SECONDS_def show_nat.simps [of 2592000] show_nat.simps [of 259200]
      show_nat.simps [of 25920] show_nat.simps [of 2592] show_nat.simps [of 259]
      show_nat.simps [of 25] show_nat.simps [of 2] digit_char_def)

section \<open>The response handed back\<close>

lemma ok_createHeadResponse: "ok (createHeadResponse r) = ok r"
  by (simp add: ok_def createHeadResponse_def)

lemma respond_status:
  "status (respond m r) = status r \<and> statusText (respond m r) = statusText r"
  by (simp add: respond_def addCacheHeaders_def createHeadResponse_def ok_def)

lemma respond_body: "body (respond m r) = (if m = ''HEAD'' then None else body r)"
  by (simp add: respond_def addCacheHeaders_def createHeadResponse_def ok_def)

lemma respond_cache_control:
  "Headers_get (headers (respond m r)) ''Cache-Control'' =
     (if ok r then Some ''public, max-age=2592000'' else Headers_get (headers r) ''Cache-Control'')"
  by (simp add: respond_def addCacheHeaders_def ok_createHeadResponse Headers_get_set_same
      cache_ttl_decimal)
    (simp add: createHeadResponse_def Headers_new_def Headers_get_entries)

lemma respond_other_headers:
  assumes "toLowerCase name \<noteq> ''cache-control''"
  shows "Headers_get (headers (respond m r)) name = Headers_get (headers r) name"
  using assms
  by (simp add: respond_def addCacheHeaders_def ok_createHeadResponse createHeadResponse_def
      Headers_new_def Headers_get_set_other cache_control_lower Headers_get_entries
      Headers_entries_idem)

lemma respond_error_get:
  assumes "\<not> ok r" and "m \<noteq> ''HEAD''"
  shows "respond m r = r"
  using assms by (simp add: respond_def addCacheHeaders_def)

lemma final_upstream_single:
  assumes "\<not> Headers_has (sr_headers sr) ''range''"
    and "upstream_reply up sr (fetch_count tr) = Inr r"
  shows "final_upstream_response up sr tr = (Inr r, tr @ [fetch_event sr])"
  using assms by (simp add: final_upstream_response_def fetch_result_reply)

lemma example_unsigned_range:
  "\<not> Headers_has (sr_headers (signedRequest example_sign
      (example_request m p []) (example_env mode None))) ''range''"
  by (simp add: signedRequest_def example_sign_def example_request_def example_env_def
      filterHeaders_def Headers_new_def Headers_entries_def Headers_has_def toLowerCase_def
      lower_char_def)

section \<open>The range retry\<close>

text \<open>The definitions a run on concrete inputs unfolds.\<close>

lemmas run_defs =
  fetch_def final_upstream_response_def range_loop.simps fetch_result_def fetch_count_def
  fetch_event_def sign_event_def signedRequest_def respond_def createHeadResponse_def
  addCacheHeaders_def ok_def filterHeaders_def Headers_new_def Headers_entries_def
  Headers_has_def Headers_set_def toLowerCase_def lower_char_def startsWith_def
  UNSIGNABLE_HEADERS_def isListBucketRequest_def normalized_path_def remove_leading_slash_def
  remove_trailing_slash_def upstream_url_def set_hostname_def set_port_def set_pathname_def
  URL_toString_def rclone_path_def remove_file_prefix_def HTTPS_PROTOCOL_def HTTPS_PORT_def
  RANGE_RETRY_ATTEMPTS_def cache_ttl_decimal example_request_def example_env_def
  example_sign_def example_upstream_def

lemma example_ignored_range:
  "ok (example_ignored b) \<and> \<not> Headers_has (headers (example_ignored b)) ''content-range''"
  by (simp add: ok_def example_ignored_def Headers_has_def Headers_entries_def toLowerCase_def
      lower_char_def)

lemma example_signed_url:
  "sr_url (signedRequest example_sign (example_request m ''/bucket/key'' hs)
            (example_env ''$path'' allowed)) = ''https://s3.example.com/bucket/key''"
  by (simp add: signedRequest_def example_sign_def example_request_def example_env_def
      upstream_url_def set_hostname_def toLowerCase_def lower_char_def URL_toString_def
      set_port_def set_pathname_def rclone_path_def remove_file_prefix_def startsWith_def
      normalized_path_def remove_leading_slash_def remove_trailing_slash_def HTTPS_PROTOCOL_def
      HTTPS_PORT_def)

lemma example_incoming_range: "Headers_has [(''Range'', ''bytes=0-3'')] ''range''"
  by (simp add: Headers_has_def Headers_entries_def toLowerCase_def lower_char_def)

lemma example_range_not_allowed:
  "\<not> Headers_has (sr_headers (signedRequest example_sign
        (example_request m p [(''Range'', ''bytes=0-3'')]) (example_env mode (Some [''accept''])))) ''range''"
  by (simp add: signedRequest_def example_sign_def example_request_def example_env_def
      filterHeaders_def Headers_new_def Headers_entries_def Headers_has_def toLowerCase_def
      lower_char_def UNSIGNABLE_HEADERS_def startsWith_def)

text \<open>
  C1, as the code has it. The retry is decided on the signed request, not on
  the incoming one. A request that reaches the forwarding path with a
  \<^verbatim>\<open>range\<close> header in its signed request, to which the upstream answers
  three times in a row with a successful response without
  \<^verbatim>\<open>content-range\<close>: the third response is the final one and the client
  gets the response made from it, with its status and, unless the request was
  a HEAD, its body; the run has exactly three fetches and exactly one
  diagnostic of exhaustion.
\<close>

theorem C1_three_ignored_ranges:
  assumes "reaches_upstream req e"
    and "Headers_has (sr_headers (signedRequest sign req e)) ''range''"
    and "upstream_reply up (signedRequest sign req e) 0 = Inr r1"
    and "ok r1" and "\<not> Headers_has (headers r1) ''content-range''"
    and "upstream_reply up (signedRequest sign req e) 1 = Inr r2"
    and "ok r2" and "\<not> Headers_has (headers r2) ''content-range''"
    and "upstream_reply up (signedRequest sign req e) 2 = Inr r3"
    and "ok r3" and "\<not> Headers_has (headers r3) ''content-range''"
  shows "fst (final_upstream_response up (signedRequest sign req e) [sign_event req e]) = Inr r3
       \<and> fst (fetch sign up req e) = Inr (respond (req_method req) r3)
       \<and> status (respond (req_method req) r3) = status r3
       \<and> body (respond (req_method req) r3) = (if req_method req = ''HEAD'' then None else body r3)
       \<and> fetch_count (snd (fetch sign up req e)) = 3
       \<and> count_list (snd (fetch sign up req e))
           (ConsoleError (exhausted_message (sr_url (signedRequest sign req e)))) = 1"
proof -
  have start: "fetch_count [sign_event req e] = 0"
    by (rule fetch_count_sign_event)
  have clean: "count_list [sign_event req e]
          (ConsoleError (exhausted_message (sr_url (signedRequest sign req e)))) = 0"
    by (simp add: sign_event_def)
  have controller:
    "fst (final_upstream_response up (signedRequest sign req e) [sign_event req e]) = Inr r3
     \<and> fetch_count (snd (final_upstream_response up (signedRequest sign req e) [sign_event req e])) = 3
     \<and> count_list (snd (final_upstream_response up (signedRequest sign req e) [sign_event req e]))
           (ConsoleError (exhausted_message (sr_url (signedRequest sign req e)))) = 1"
    by (rule final_upstream_exhausted [OF assms(2) start clean assms(3-11)])
  then have "fst (fetch sign up req e) = Inr (respond (req_method req) r3)"
    using assms(1) by (simp add: fetch_forwarded_response)
  with controller show ?thesis
    using assms(1) by (simp add: fetch_forwarded_events respond_status respond_body)
qed

theorem C1_three_ignored_ranges_witness:
  "reaches_upstream (example_request ''GET'' ''/bucket/key'' [(''Range'', ''bytes=0-3'')])
     (example_env ''$path'' None)
   \<and> Headers_has (sr_headers (signedRequest example_sign
         (example_request ''GET'' ''/bucket/key'' [(''Range'', ''bytes=0-3'')])
         (example_env ''$path'' None))) ''range''
   \<and> fst (fetch example_sign
            (example_upstream [example_ignored ''first'', example_ignored ''second'',
                               example_ignored ''third''])
            (example_request ''GET'' ''/bucket/key'' [(''Range'', ''bytes=0-3'')])
            (example_env ''$path'' None))
       = Inr \<lparr>status = 200, statusText = ''OK'',
              headers = [(''content-type'', ''text/plain''),
                         (''cache-control'', ''public, max-age=2592000'')],
              body = Some ''third''\<rparr>
   \<and> fetch_count (snd (fetch example_sign
            (example_upstream [example_ignored ''first'', example_ignored ''second'',
                               example_ignored ''third''])
            (example_request ''GET'' ''/bucket/key'' [(''Range'', ''bytes=0-3'')])
            (example_env ''$path'' None))) = 3
   \<and> count_list (snd (fetch example_sign
            (example_upstream [example_ignored ''first'', example_ignored ''second'',
                               example_ignored ''third''])
            (example_request ''GET'' ''/bucket/key'' [(''Range'', ''bytes=0-3'')])
            (example_env ''$path'' None)))
        (ConsoleError (exhausted_message ''https://s3.example.com/bucket/key'')) = 1"
proof -
  define req where "req = example_request ''GET'' ''/bucket/key'' [(''Range'', ''bytes=0-3'')]"
  define e where "e = example_env ''$path'' None"
  define up where "up = example_upstream [example_ignored ''first'', example_ignored ''second'',
                               example_ignored ''third'']"
  have reach: "reaches_upstream req e"
    unfolding req_def e_def by (simp add: example_reaches_upstream)
  have range: "Headers_has (sr_headers (signedRequest example_sign req e)) ''range''"
    unfolding req_def e_def by (rule example_has_range)
  have replies: "upstream_reply up (signedRequest example_sign req e) 0 = Inr (example_ignored ''first'')"
    "upstream_reply up (signedRequest example_sign req e) 1 = Inr (example_ignored ''second'')"
    "upstream_reply up (signedRequest example_sign req e) 2 = Inr (example_ignored ''third'')"
    unfolding up_def by (simp_all add: example_upstream_reply)
  have url: "sr_url (signedRequest example_sign req e) = ''https://s3.example.com/bucket/key''"
    unfolding req_def e_def by (rule example_signed_url)
  have m: "req_method req = ''GET''"
    unfolding req_def by (simp add: example_request_def)
  have out: "respond ''GET'' (example_ignored ''third'')
      = \<lparr>status = 200, statusText = ''OK'',
         headers = [(''content-type'', ''text/plain''),
                    (''cache-control'', ''public, max-age=2592000'')],
         body = Some ''third''\<rparr>"
    by (simp add: respond_def addCacheHeaders_def ok_def example_ignored_def Headers_new_def
        Headers_entries_def Headers_set_def Headers_has_def toLowerCase_def lower_char_def
        cache_ttl_decimal)
  from C1_three_ignored_ranges [OF reach range replies(1) _ _ replies(2) _ _ replies(3)]
    example_ignored_range reach range
  show ?thesis
    unfolding req_def [symmetric] e_def [symmetric] up_def [symmetric] by (simp add: url m out)
qed

text \<open>
  The claim as stated fails for an incoming request whose \<^verbatim>\<open>Range\<close> header
  the allow-list removes: the signed request has no \<^verbatim>\<open>range\<close> header, and
  with the same three responses the run has one fetch, hands back the first
  response and has no diagnostic.
\<close>

theorem C1_allow_list_counterexample:
  "Headers_has (req_headers (example_request ''GET'' ''/bucket/key'' [(''Range'', ''bytes=0-3'')]))
     ''range''
   \<and> ok (example_ignored ''first'')
   \<and> \<not> Headers_has (headers (example_ignored ''first'')) ''content-range''
   \<and> fetch example_sign
        (example_upstream [example_ignored ''first'', example_ignored ''second'',
                           example_ignored ''third''])
        (example_request ''GET'' ''/bucket/key'' [(''Range'', ''bytes=0-3'')])
        (example_env ''$path'' (Some [''accept'']))
      = (Inr \<lparr>status = 200, statusText = ''OK'',
              headers = [(''content-type'', ''text/plain''),
                         (''cache-control'', ''public, max-age=2592000'')],
              body = Some ''first''\<rparr>,
         [Sign ''https://s3.example.com/bucket/key'' ''GET'' [],
          Fetch ''https://s3.example.com/bucket/key'' ''GET'' [(''authorization'', ''id'')]])"
  by (simp add: run_defs example_ignored_def)

text \<open>
  C2, as the code has it. With a \<^verbatim>\<open>range\<close> header in the signed request,
  when the first \<open>k\<close> responses (\<open>k\<close> below the three attempts) are
  successful without \<^verbatim>\<open>content-range\<close> and the next response has
  \<^verbatim>\<open>content-range\<close>, that response is the final one whatever its status:
  the client gets the response made from it, with its status and, unless the
  request was a HEAD, its body, and the run has exactly \<open>k + 1\<close> fetches.
  The witness is the case of a 200 followed by a 206.
\<close>

theorem C2_first_content_range_is_final:
  assumes "reaches_upstream req e"
    and "Headers_has (sr_headers (signedRequest sign req e)) ''range''"
    and "k < 3"
    and "\<forall>j<k. \<exists>r'. upstream_reply up (signedRequest sign req e) j = Inr r'
                    \<and> ok r' \<and> \<not> Headers_has (headers r') ''content-range''"
    and "upstream_reply up (signedRequest sign req e) k = Inr r"
    and "Headers_has (headers r) ''content-range''"
  shows "fst (final_upstream_response up (signedRequest sign req e) [sign_event req e]) = Inr r
       \<and> fst (fetch sign up req e) = Inr (respond (req_method req) r)
       \<and> status (respond (req_method req) r) = status r
       \<and> body (respond (req_method req) r) = (if req_method req = ''HEAD'' then None else body r)
       \<and> Headers_get (headers (respond (req_method req) r)) ''Content-Range''
           = Headers_get (headers r) ''Content-Range''
       \<and> fetch_count (snd (fetch sign up req e)) = Suc k"
proof -
  have controller:
    "fst (final_upstream_response up (signedRequest sign req e) [sign_event req e]) = Inr r
     \<and> fetch_count (snd (final_upstream_response up (signedRequest sign req e) [sign_event req e]))
         = Suc k"
    by (rule final_upstream_stops [OF assms(2) fetch_count_sign_event assms(3-5)])
      (simp add: assms(6))
  have "toLowerCase ''Content-Range'' \<noteq> ''cache-control''"
    by (simp add: toLowerCase_def lower_char_def)
  then have "Headers_get (headers (respond (req_method req) r)) ''Content-Range''
           = Headers_get (headers r) ''Content-Range''"
    by (rule respond_other_headers)
  with controller assms(1) show ?thesis
    by (simp add: fetch_forwarded_response fetch_forwarded_events respond_status respond_body)
qed

theorem C2_first_content_range_is_final_witness:
  "reaches_upstream (example_request ''GET'' ''/bucket/key'' [(''Range'', ''bytes=0-3'')])
     (example_env ''$path'' None)
   \<and> Headers_has (sr_headers (signedRequest example_sign
         (example_request ''GET'' ''/bucket/key'' [(''Range'', ''bytes=0-3'')])
         (example_env ''$path'' None))) ''range''
   \<and> status example_200 = 200 \<and> \<not> Headers_has (headers example_200) ''content-range''
   \<and> status example_206 = 206 \<and> Headers_has (headers example_206) ''content-range''
   \<and> fst (fetch example_sign (example_upstream [example_200, example_206])
            (example_request ''GET'' ''/bucket/key'' [(''Range'', ''bytes=0-3'')])
            (example_env ''$path'' None))
       = Inr \<lparr>status = 206, statusText = ''Partial Content'',
              headers = [(''content-type'', ''text/plain''), (''content-range'', ''bytes 0-3/16''),
                         (''cache-control'', ''public, max-age=2592000'')],
              body = Some ''0123''\<rparr>
   \<and> fetch_count (snd (fetch example_sign (example_upstream [example_200, example_206])
            (example_request ''GET'' ''/bucket/key'' [(''Range'', ''bytes=0-3'')])
            (example_env ''$path'' None))) = 2"
proof -
  define req where "req = example_request ''GET'' ''/bucket/key'' [(''Range'', ''bytes=0-3'')]"
  define e where "e = example_env ''$path'' None"
  define up where "up = example_upstream [example_200, example_206]"
  have reach: "reaches_upstream req e"
    unfolding req_def e_def by (simp add: example_reaches_upstream)
  have range: "Headers_has (sr_headers (signedRequest example_sign req e)) ''range''"
    unfolding req_def e_def by (rule example_has_range)
  have first: "\<forall>j<1. \<exists>r'. upstream_reply up (signedRequest example_sign req e) j = Inr r'
                    \<and> ok r' \<and> \<not> Headers_has (headers r') ''content-range''"
    unfolding up_def by (simp add: example_upstream_reply example_200_ignored_range)
  have second: "upstream_reply up (signedRequest example_sign req e) 1 = Inr example_206"
    unfolding up_def by (simp add: example_upstream_reply)
  have m: "req_method req = ''GET''"
    unfolding req_def by (simp add: example_request_def)
  have statuses: "status example_200 = 200" "status example_206 = 206"
    by (simp_all add: example_200_def example_206_def)
  have out: "respond ''GET'' example_206
      = \<lparr>status = 206, statusText = ''Partial Content'',
         headers = [(''content-type'', ''text/plain''), (''content-range'', ''bytes 0-3/16''),
                    (''cache-control'', ''public, max-age=2592000'')],
         body = Some ''0123''\<rparr>"
    by (simp add: respond_def addCacheHeaders_def ok_def example_206_def Headers_new_def
        Headers_entries_def Headers_set_def Headers_has_def toLowerCase_def lower_char_def
        cache_ttl_decimal)
  from C2_first_content_range_is_final [OF reach range _ first second example_206_content_range]
    example_206_content_range example_200_ignored_range reach range statuses
  show ?thesis
    unfolding req_def [symmetric] e_def [symmetric] up_def [symmetric] by (simp add: m out)
qed

text \<open>
  The claim as stated fails for an incoming request whose \<^verbatim>\<open>Range\<close> header
  the allow-list removes: with a 200 without \<^verbatim>\<open>content-range\<close> followed
  by a 206 with it, the run has one fetch and the client gets the 200.
\<close>

theorem C2_allow_list_counterexample:
  "Headers_has (req_headers (example_request ''GET'' ''/bucket/key'' [(''Range'', ''bytes=0-3'')]))
     ''range''
   \<and> \<not> Headers_has (headers example_200) ''content-range''
   \<and> Headers_has (headers example_206) ''content-range''
   \<and> fetch example_sign (example_upstream [example_200, example_206])
        (example_request ''GET'' ''/bucket/key'' [(''Range'', ''bytes=0-3'')])
        (example_env ''$path'' (Some [''accept'']))
      = (Inr \<lparr>status = 200, statusText = ''OK'',
              headers = [(''content-type'', ''text/plain''),
                         (''cache-control'', ''public, max-age=2592000'')],
              body = Some ''0123456789abcdef''\<rparr>,
         [Sign ''https://s3.example.com/bucket/key'' ''GET'' [],
          Fetch ''https://s3.example.com/bucket/key'' ''GET'' [(''authorization'', ''id'')]])"
  by (simp add: run_defs example_200_def example_206_def)

text \<open>
  C3, as the code has it. A response that is not successful and has no
  \<^verbatim>\<open>content-range\<close> is the last of the run, whether or not the range header
  of the incoming request is in the signed request: after \<open>k\<close> attempts that
  were retried (each with a \<^verbatim>\<open>range\<close> header in the signed request and a
  successful response without \<^verbatim>\<open>content-range\<close>) the run has exactly
  \<open>k + 1\<close> fetches. For a method other than HEAD the client gets that very
  response; for HEAD it gets the same status, status text and headers (no
  \<^verbatim>\<open>cache-control\<close> is added) and no body.
\<close>

theorem C3_upstream_error_not_retried:
  assumes "reaches_upstream req e"
    and "k < 3"
    and "\<forall>j<k. Headers_has (sr_headers (signedRequest sign req e)) ''range''
               \<and> (\<exists>r'. upstream_reply up (signedRequest sign req e) j = Inr r'
                      \<and> ok r' \<and> \<not> Headers_has (headers r') ''content-range'')"
    and "upstream_reply up (signedRequest sign req e) k = Inr r"
    and "\<not> ok r" and "\<not> Headers_has (headers r) ''content-range''"
  shows "fetch_count (snd (fetch sign up req e)) = Suc k
       \<and> (req_method req \<noteq> ''HEAD'' \<longrightarrow> fst (fetch sign up req e) = Inr r)
       \<and> (req_method req = ''HEAD'' \<longrightarrow>
            (\<exists>out. fst (fetch sign up req e) = Inr out
               \<and> status out = status r \<and> statusText out = statusText r \<and> body out = None
               \<and> (\<forall>name. Headers_get (headers out) name = Headers_get (headers r) name)))"
proof -
  have controller:
    "fst (final_upstream_response up (signedRequest sign req e) [sign_event req e]) = Inr r
     \<and> fetch_count (snd (final_upstream_response up (signedRequest sign req e) [sign_event req e]))
         = Suc k"
  proof (cases "Headers_has (sr_headers (signedRequest sign req e)) ''range''")
    case True
    from assms(3) have before: "\<forall>j<k. \<exists>r'. upstream_reply up (signedRequest sign req e) j = Inr r'
                    \<and> ok r' \<and> \<not> Headers_has (headers r') ''content-range''"
      by blast
    show ?thesis
      by (rule final_upstream_stops [OF True fetch_count_sign_event assms(2) before assms(4)])
        (simp add: assms(5))
  next
    case False
    with assms(3) have "k = 0" by (cases k) auto
    with assms(4) have "upstream_reply up (signedRequest sign req e) (fetch_count [sign_event req e])
                          = Inr r"
      by (simp add: fetch_count_sign_event)
    with False have "final_upstream_response up (signedRequest sign req e) [sign_event req e]
        = (Inr r, [sign_event req e] @ [fetch_event (signedRequest sign req e)])"
      by (rule final_upstream_single)
    with \<open>k = 0\<close> show ?thesis
      by (simp add: fetch_count_def sign_event_def fetch_event_def)
  qed
  with assms(1) have out: "fst (fetch sign up req e) = Inr (respond (req_method req) r)"
    and count: "fetch_count (snd (fetch sign up req e)) = Suc k"
    by (simp_all add: fetch_forwarded_response fetch_forwarded_events)
  have get: "req_method req \<noteq> ''HEAD'' \<longrightarrow> fst (fetch sign up req e) = Inr r"
    using out assms(5) by (simp add: respond_error_get)
  have "respond ''HEAD'' r = createHeadResponse r"
    using assms(5) by (simp add: respond_def addCacheHeaders_def ok_createHeadResponse)
  then have head:
    "\<forall>name. Headers_get (headers (respond ''HEAD'' r)) name = Headers_get (headers r) name"
    by (simp add: createHeadResponse_def Headers_new_def Headers_get_entries)
  have "req_method req = ''HEAD'' \<longrightarrow>
            (\<exists>out. fst (fetch sign up req e) = Inr out
               \<and> status out = status r \<and> statusText out = statusText r \<and> body out = None
               \<and> (\<forall>name. Headers_get (headers out) name = Headers_get (headers r) name))"
    using out head by (simp add: respond_status respond_body)
  with count get show ?thesis by blast
qed

theorem C3_upstream_error_not_retried_witness:
  "Headers_has (req_headers (example_request ''GET'' ''/bucket/key'' [(''Range'', ''bytes=0-3'')]))
     ''range''
   \<and> reaches_upstream (example_request ''GET'' ''/bucket/key'' [(''Range'', ''bytes=0-3'')])
     (example_env ''$path'' None)
   \<and> Headers_has (sr_headers (signedRequest example_sign
         (example_request ''GET'' ''/bucket/key'' [(''Range'', ''bytes=0-3'')])
         (example_env ''$path'' None))) ''range''
   \<and> \<not> ok example_403 \<and> \<not> Headers_has (headers example_403) ''content-range''
   \<and> fetch_count (snd (fetch example_sign (example_upstream [example_200, example_403])
        (example_request ''GET'' ''/bucket/key'' [(''Range'', ''bytes=0-3'')])
        (example_env ''$path'' None))) = 2
   \<and> fst (fetch example_sign (example_upstream [example_200, example_403])
        (example_request ''GET'' ''/bucket/key'' [(''Range'', ''bytes=0-3'')])
        (example_env ''$path'' None)) = Inr example_403
   \<and> reaches_upstream (example_request ''GET'' ''/bucket/key'' [(''Range'', ''bytes=0-3'')])
     (example_env ''$path'' (Some [''accept'']))
   \<and> \<not> Headers_has (sr_headers (signedRequest example_sign
         (example_request ''GET'' ''/bucket/key'' [(''Range'', ''bytes=0-3'')])
         (example_env ''$path'' (Some [''accept''])))) ''range''
   \<and> fetch_count (snd (fetch example_sign (example_upstream [example_403])
        (example_request ''GET'' ''/bucket/key'' [(''Range'', ''bytes=0-3'')])
        (example_env ''$path'' (Some [''accept''])))) = 1
   \<and> fst (fetch example_sign (example_upstream [example_403])
        (example_request ''GET'' ''/bucket/key'' [(''Range'', ''bytes=0-3'')])
        (example_env ''$path'' (Some [''accept'']))) = Inr example_403"
proof -
  define req where "req = example_request ''GET'' ''/bucket/key'' [(''Range'', ''bytes=0-3'')]"
  define e where "e = example_env ''$path'' None"
  define e' where "e' = example_env ''$path'' (Some [''accept''])"
  define up where "up = example_upstream [example_200, example_403]"
  define up' where "up' = example_upstream [example_403]"
  have incoming: "Headers_has (req_headers req) ''range''"
    unfolding req_def by (simp add: example_request_def example_incoming_range)
  have m: "req_method req = ''GET''"
    unfolding req_def by (simp add: example_request_def)
  have reach: "reaches_upstream req e" and reach': "reaches_upstream req e'"
    unfolding req_def e_def e'_def by (simp_all add: example_reaches_upstream)
  have range: "Headers_has (sr_headers (signedRequest example_sign req e)) ''range''"
    unfolding req_def e_def by (rule example_has_range)
  have dropped: "\<not> Headers_has (sr_headers (signedRequest example_sign req e')) ''range''"
    unfolding req_def e'_def by (rule example_range_not_allowed)
  have retried: "\<forall>j<1. Headers_has (sr_headers (signedRequest example_sign req e)) ''range''
               \<and> (\<exists>r'. upstream_reply up (signedRequest example_sign req e) j = Inr r'
                      \<and> ok r' \<and> \<not> Headers_has (headers r') ''content-range'')"
    unfolding up_def using range by (simp add: example_upstream_reply example_200_ignored_range)
  have reply: "upstream_reply up (signedRequest example_sign req e) 1 = Inr example_403"
    unfolding up_def by (simp add: example_upstream_reply)
  have none: "\<forall>j<0. Headers_has (sr_headers (signedRequest example_sign req e')) ''range''
               \<and> (\<exists>r'. upstream_reply up' (signedRequest example_sign req e') j = Inr r'
                      \<and> ok r' \<and> \<not> Headers_has (headers r') ''content-range'')"
    by simp
  have reply': "upstream_reply up' (signedRequest example_sign req e') 0 = Inr example_403"
    unfolding up'_def by (simp add: example_upstream_reply)
  from C3_upstream_error_not_retried [OF reach _ retried reply] example_403_error m
  have with_range: "fetch_count (snd (fetch example_sign up req e)) = 2
      \<and> fst (fetch example_sign up req e) = Inr example_403"
    by simp
  from C3_upstream_error_not_retried [OF reach' _ none reply'] example_403_error m
  have without_range: "fetch_count (snd (fetch example_sign up' req e')) = 1
      \<and> fst (fetch example_sign up' req e') = Inr example_403"
    by simp
  from with_range without_range incoming reach reach' range dropped example_403_error
  show ?thesis
    unfolding req_def [symmetric] e_def [symmetric] e'_def [symmetric] up_def [symmetric]
      up'_def [symmetric]
    by simp
qed

text \<open>
  The claim as stated fails for a HEAD request: the 403 of the upstream has a
  body and the response to the client has none.
\<close>

theorem C3_head_body_counterexample:
  "\<not> ok example_403 \<and> \<not> Headers_has (headers example_403) ''content-range''
   \<and> body example_403 = Some ''<Error><Code>AccessDenied</Code></Error>''
   \<and> fst (fetch example_sign (example_upstream [example_403])
        (example_request ''HEAD'' ''/bucket/key'' [(''Range'', ''bytes=0-3'')])
        (example_env ''$path'' None))
      = Inr \<lparr>status = 403, statusText = ''Forbidden'',
             headers = [(''content-type'', ''application/xml'')], body = None\<rparr>"
proof -
  define req where "req = example_request ''HEAD'' ''/bucket/key'' [(''Range'', ''bytes=0-3'')]"
  define e where "e = example_env ''$path'' None"
  define up where "up = example_upstream [example_403]"
  have reach: "reaches_upstream req e"
    unfolding req_def e_def by (simp add: example_reaches_upstream)
  have range: "Headers_has (sr_headers (signedRequest example_sign req e)) ''range''"
    unfolding req_def e_def by (rule example_has_range)
  have reply: "upstream_reply up (signedRequest example_sign req e) 0 = Inr example_403"
    unfolding up_def by (simp add: example_upstream_reply)
  have "fst (final_upstream_response up (signedRequest example_sign req e) [sign_event req e])
          = Inr example_403"
    using final_upstream_stops [OF range fetch_count_sign_event _ _ reply, of req e]
      example_403_error by simp
  with reach have "fst (fetch example_sign up req e) = Inr (respond (req_method req) example_403)"
    by (rule fetch_forwarded_response)
  moreover have "respond (req_method req) example_403
      = \<lparr>status = 403, statusText = ''Forbidden'',
         headers = [(''content-type'', ''application/xml'')], body = None\<rparr>"
    unfolding req_def
    by (simp add: example_request_def respond_def addCacheHeaders_def createHeadResponse_def
        ok_def example_403_def Headers_new_def Headers_entries_def toLowerCase_def lower_char_def)
  ultimately show ?thesis
    using example_403_error
    unfolding req_def [symmetric] e_def [symmetric] up_def [symmetric]
    by (simp add: example_403_def)
qed

section \<open>The response to the client\<close>

text \<open>
  C7, as the code has it. For a HEAD request the response to the client has
  the status and the status text of the final upstream response, no body, and
  its headers, except that for a successful response \<^verbatim>\<open>Cache-Control\<close> is set to
  \<open>public, max-age=2592000\<close>; for a GET request the body of the final upstream
  response is handed on.
\<close>

theorem C7_head_response_has_no_body:
  assumes "reaches_upstream req e"
    and "fst (final_upstream_response up (signedRequest sign req e) [sign_event req e]) = Inr final"
  shows "\<exists>out. fst (fetch sign up req e) = Inr out
       \<and> (req_method req = ''HEAD'' \<longrightarrow>
            status out = status final \<and> statusText out = statusText final \<and> body out = None
            \<and> (\<forall>name. toLowerCase name \<noteq> ''cache-control'' \<longrightarrow>
                  Headers_get (headers out) name = Headers_get (headers final) name)
            \<and> (ok final \<longrightarrow>
                  Headers_get (headers out) ''Cache-Control'' = Some ''public, max-age=2592000'')
            \<and> (\<not> ok final \<longrightarrow>
                  Headers_get (headers out) ''Cache-Control''
                    = Headers_get (headers final) ''Cache-Control''))
       \<and> (req_method req = ''GET'' \<longrightarrow> body out = body final)"
proof (intro exI conjI impI allI)
  show "fst (fetch sign up req e) = Inr (respond (req_method req) final)"
    using assms by (rule fetch_forwarded_response)
next
  show "status (respond (req_method req) final) = status final"
    by (simp add: respond_status)
next
  show "statusText (respond (req_method req) final) = statusText final"
    by (simp add: respond_status)
next
  assume "req_method req = ''HEAD''"
  then show "body (respond (req_method req) final) = None"
    by (simp add: respond_body)
next
  fix name assume "toLowerCase name \<noteq> ''cache-control''"
  then show "Headers_get (headers (respond (req_method req) final)) name
               = Headers_get (headers final) name"
    by (rule respond_other_headers)
next
  assume "ok final"
  then show "Headers_get (headers (respond (req_method req) final)) ''Cache-Control''
               = Some ''public, max-age=2592000''"
    by (simp add: respond_cache_control)
next
  assume "\<not> ok final"
  then show "Headers_get (headers (respond (req_method req) final)) ''Cache-Control''
               = Headers_get (headers final) ''Cache-Control''"
    by (simp add: respond_cache_control)
next
  assume "req_method req = ''GET''"
  then show "body (respond (req_method req) final) = body final"
    by (simp add: respond_body)
qed

theorem C7_head_response_has_no_body_witness:
  "reaches_upstream (example_request ''HEAD'' ''/bucket/key'' []) (example_env ''$path'' None)
   \<and> fst (final_upstream_response (example_upstream [example_403])
          (signedRequest example_sign (example_request ''HEAD'' ''/bucket/key'' [])
             (example_env ''$path'' None))
          [sign_event (example_request ''HEAD'' ''/bucket/key'' []) (example_env ''$path'' None)])
       = Inr example_403
   \<and> (\<exists>out. fst (fetch example_sign (example_upstream [example_403])
                (example_request ''HEAD'' ''/bucket/key'' []) (example_env ''$path'' None)) = Inr out
          \<and> status out = 403 \<and> statusText out = ''Forbidden'' \<and> body out = None
          \<and> Headers_get (headers out) ''Content-Type'' = Headers_get (headers example_403) ''Content-Type'')"
proof -
  define req where "req = example_request ''HEAD'' ''/bucket/key'' []"
  define e where "e = example_env ''$path'' None"
  define up where "up = example_upstream [example_403]"
  have reach: "reaches_upstream req e"
    unfolding req_def e_def by (simp add: example_reaches_upstream)
  have "upstream_reply up (signedRequest example_sign req e) (fetch_count [sign_event req e])
          = Inr example_403"
    unfolding up_def by (simp add: example_upstream_reply fetch_count_sign_event)
  then have final: "fst (final_upstream_response up (signedRequest example_sign req e)
                      [sign_event req e]) = Inr example_403"
    unfolding req_def e_def by (simp add: final_upstream_single example_unsigned_range)
  have m: "req_method req = ''HEAD''"
    unfolding req_def by (simp add: example_request_def)
  have name: "toLowerCase ''Content-Type'' \<noteq> ''cache-control''"
    by (simp add: toLowerCase_def lower_char_def)
  from C7_head_response_has_no_body [OF reach final] obtain out where
    "fst (fetch example_sign up req e) = Inr out" "status out = status example_403"
    "statusText out = statusText example_403" "body out = None"
    "Headers_get (headers out) ''Content-Type'' = Headers_get (headers example_403) ''Content-Type''"
    using m name by blast
  then have "\<exists>out. fst (fetch example_sign up req e) = Inr out
          \<and> status out = 403 \<and> statusText out = ''Forbidden'' \<and> body out = None
          \<and> Headers_get (headers out) ''Content-Type'' = Headers_get (headers example_403) ''Content-Type''"
    by (simp add: example_403_def)
  with reach final show ?thesis
    unfolding req_def [symmetric] e_def [symmetric] up_def [symmetric] by simp
qed

text \<open>
  The claim as stated fails for a successful response: the upstream sent
  \<^verbatim>\<open>Cache-Control: no-store\<close> and the HEAD response to the client carries
  another value under that name.
\<close>

theorem C7_head_headers_counterexample:
  "Headers_get (headers example_200) ''Cache-Control'' = Some ''no-store''
   \<and> fst (final_upstream_response (example_upstream [example_200])
          (signedRequest example_sign (example_request ''HEAD'' ''/bucket/key'' [])
             (example_env ''$path'' None))
          [sign_event (example_request ''HEAD'' ''/bucket/key'' []) (example_env ''$path'' None)])
       = Inr example_200
   \<and> fst (fetch example_sign (example_upstream [example_200])
        (example_request ''HEAD'' ''/bucket/key'' []) (example_env ''$path'' None))
      = Inr \<lparr>status = 200, statusText = ''OK'',
             headers = [(''content-type'', ''text/plain''),
                        (''cache-control'', ''public, max-age=2592000'')],
             body = None\<rparr>"
proof -
  define req where "req = example_request ''HEAD'' ''/bucket/key'' []"
  define e where "e = example_env ''$path'' None"
  define up where "up = example_upstream [example_200]"
  have reach: "reaches_upstream req e"
    unfolding req_def e_def by (simp add: example_reaches_upstream)
  have "upstream_reply up (signedRequest example_sign req e) (fetch_count [sign_event req e])
          = Inr example_200"
    unfolding up_def by (simp add: example_upstream_reply fetch_count_sign_event)
  then have final: "fst (final_upstream_response up (signedRequest example_sign req e)
                      [sign_event req e]) = Inr example_200"
    unfolding req_def e_def by (simp add: final_upstream_single example_unsigned_range)
  with reach have "fst (fetch example_sign up req e) = Inr (respond (req_method req) example_200)"
    by (rule fetch_forwarded_response)
  moreover have "respond (req_method req) example_200
      = \<lparr>status = 200, statusText = ''OK'',
         headers = [(''content-type'', ''text/plain''),
                    (''cache-control'', ''public, max-age=2592000'')],
         body = None\<rparr>"
    unfolding req_def
    by (simp add: example_request_def respond_def addCacheHeaders_def createHeadResponse_def
        ok_def example_200_def Headers_new_def Headers_entries_def Headers_set_def Headers_has_def
        toLowerCase_def lower_char_def cache_ttl_decimal)
  moreover have "Headers_get (headers example_200) ''Cache-Control'' = Some ''no-store''"
    by (simp add: example_200_def Headers_get_def Headers_has_def Headers_entries_def
        toLowerCase_def lower_char_def)
  ultimately show ?thesis
    using final unfolding req_def [symmetric] e_def [symmetric] up_def [symmetric] by simp
qed

text \<open>
  C8, as the code has it. Whatever the method, the response to the client has
  the status and status text of the final upstream response and, under every
  name but \<^verbatim>\<open>Cache-Control\<close>, its headers. For a successful final response
  \<^verbatim>\<open>Cache-Control\<close> is \<open>public, max-age=2592000\<close>, whatever it was; for
  another one it is what the upstream sent, and a GET request gets that very
  response. The body is that of the final upstream response, except for a HEAD
  request, which gets none.
\<close>

theorem C8_cache_control:
  assumes "reaches_upstream req e"
    and "fst (final_upstream_response up (signedRequest sign req e) [sign_event req e]) = Inr final"
  shows "\<exists>out. fst (fetch sign up req e) = Inr out
       \<and> status out = status final \<and> statusText out = statusText final
       \<and> (\<forall>name. toLowerCase name \<noteq> ''cache-control'' \<longrightarrow>
             Headers_get (headers out) name = Headers_get (headers final) name)
       \<and> (ok final \<longrightarrow>
             Headers_get (headers out) ''Cache-Control'' = Some ''public, max-age=2592000'')
       \<and> (\<not> ok final \<longrightarrow>
             Headers_get (headers out) ''Cache-Control'' = Headers_get (headers final) ''Cache-Control'')
       \<and> (\<not> ok final \<and> req_method req \<noteq> ''HEAD'' \<longrightarrow> out = final)
       \<and> body out = (if req_method req = ''HEAD'' then None else body final)"
proof -
  define out where "out = respond (req_method req) final"
  have "fst (fetch sign up req e) = Inr out"
    unfolding out_def using assms by (rule fetch_forwarded_response)
  moreover have "status out = status final \<and> statusText out = statusText final"
    unfolding out_def by (rule respond_status)
  moreover have "\<forall>name. toLowerCase name \<noteq> ''cache-control'' \<longrightarrow>
             Headers_get (headers out) name = Headers_get (headers final) name"
    unfolding out_def by (simp add: respond_other_headers)
  moreover have "Headers_get (headers out) ''Cache-Control''
      = (if ok final then Some ''public, max-age=2592000''
         else Headers_get (headers final) ''Cache-Control'')"
    unfolding out_def by (rule respond_cache_control)
  moreover have "\<not> ok final \<and> req_method req \<noteq> ''HEAD'' \<longrightarrow> out = final"
    unfolding out_def by (simp add: respond_error_get)
  moreover have "body out = (if req_method req = ''HEAD'' then None else body final)"
    unfolding out_def by (rule respond_body)
  ultimately show ?thesis by (intro exI [of _ out]) simp
qed

theorem C8_cache_control_witness:
  "reaches_upstream (example_request ''GET'' ''/bucket/key'' []) (example_env ''$path'' None)
   \<and> ok example_200
   \<and> Headers_get (headers example_200) ''Cache-Control'' = Some ''no-store''
   \<and> fst (final_upstream_response (example_upstream [example_200])
          (signedRequest example_sign (example_request ''GET'' ''/bucket/key'' [])
             (example_env ''$path'' None))
          [sign_event (example_request ''GET'' ''/bucket/key'' []) (example_env ''$path'' None)])
       = Inr example_200
   \<and> (\<exists>out. fst (fetch example_sign (example_upstream [example_200])
                (example_request ''GET'' ''/bucket/key'' []) (example_env ''$path'' None)) = Inr out
          \<and> status out = 200
          \<and> Headers_get (headers out) ''Cache-Control'' = Some ''public, max-age=2592000''
          \<and> body out = body example_200)"
proof -
  define req where "req = example_request ''GET'' ''/bucket/key'' []"
  define e where "e = example_env ''$path'' None"
  define up where "up = example_upstream [example_200]"
  have reach: "reaches_upstream req e"
    unfolding req_def e_def by (simp add: example_reaches_upstream)
  have "upstream_reply up (signedRequest example_sign req e) (fetch_count [sign_event req e])
          = Inr example_200"
    unfolding up_def by (simp add: example_upstream_reply fetch_count_sign_event)
  then have final: "fst (final_upstream_response up (signedRequest example_sign req e)
                      [sign_event req e]) = Inr example_200"
    unfolding req_def e_def by (simp add: final_upstream_single example_unsigned_range)
  have m: "req_method req = ''GET''"
    unfolding req_def by (simp add: example_request_def)
  have sent: "Headers_get (headers example_200) ''Cache-Control'' = Some ''no-store''"
    by (simp add: example_200_def Headers_get_def Headers_has_def Headers_entries_def
        toLowerCase_def lower_char_def)
  have success: "ok example_200"
    by (simp add: example_200_ignored_range)
  from C8_cache_control [OF reach final] obtain out where
    "fst (fetch example_sign up req e) = Inr out" "status out = status example_200"
    "Headers_get (headers out) ''Cache-Control'' = Some ''public, max-age=2592000''"
    "body out = body example_200"
    using m success by auto
  then have "\<exists>out. fst (fetch example_sign up req e) = Inr out
          \<and> status out = 200
          \<and> Headers_get (headers out) ''Cache-Control'' = Some ''public, max-age=2592000''
          \<and> body out = body example_200"
    by (simp add: example_200_def)
  with reach final sent success show ?thesis
    unfolding req_def [symmetric] e_def [symmetric] up_def [symmetric] by simp
qed

text \<open>
  The claim as stated fails for a HEAD request: the successful response of the
  upstream has a body and the response to the client has none.
\<close>

theorem C8_head_body_counterexample:
  "ok example_200 \<and> body example_200 = Some ''0123456789abcdef''
   \<and> fst (final_upstream_response (example_upstream [example_200])
          (signedRequest example_sign (example_request ''HEAD'' ''/bucket/other'' [])
             (example_env ''$path'' None))
          [sign_event (example_request ''HEAD'' ''/bucket/other'' []) (example_env ''$path'' None)])
       = Inr example_200
   \<and> body (respond ''HEAD'' example_200) = None
   \<and> fst (fetch example_sign (example_upstream [example_200])
        (example_request ''HEAD'' ''/bucket/other'' []) (example_env ''$path'' None))
      = Inr (respond ''HEAD'' example_200)"
proof -
  define req where "req = example_request ''HEAD'' ''/bucket/other'' []"
  define e where "e = example_env ''$path'' None"
  define up where "up = example_upstream [example_200]"
  have reach: "reaches_upstream req e"
    unfolding req_def e_def
    by (simp add: reaches_upstream_def example_request_def example_env_def isListBucketRequest_def
      normalized_path_def remove_leading_slash_def remove_trailing_slash_def)
  have "upstream_reply up (signedRequest example_sign req e) (fetch_count [sign_event req e])
          = Inr example_200"
    unfolding up_def by (simp add: example_upstream_reply fetch_count_sign_event)
  then have final: "fst (final_upstream_response up (signedRequest example_sign req e)
                      [sign_event req e]) = Inr example_200"
    unfolding req_def e_def by (simp add: final_upstream_single example_unsigned_range)
  with reach have "fst (fetch example_sign up req e) = Inr (respond (req_method req) example_200)"
    by (rule fetch_forwarded_response)
  moreover have "req_method req = ''HEAD''"
    unfolding req_def by (simp add: example_request_def)
  moreover have "body example_200 = Some ''0123456789abcdef''"
    by (simp add: example_200_def)
  ultimately show ?thesis
    using final example_200_ignored_range
    unfolding req_def [symmetric] e_def [symmetric] up_def [symmetric]
    by (simp add: respond_body)
qed

section \<open>The header filter\<close>

lemma Headers_entries_filter:
  "Headers_entries (filter P (Headers_entries h)) = filter P (Headers_entries h)"
  by (induction h) (simp_all add: Headers_entries_def toLowerCase_idem)

lemma filter_name_filter:
  "filter (\<lambda>pair. fst pair = n) (filter (\<lambda>pair. Q (fst pair)) xs)
     = (if Q n then filter (\<lambda>pair. fst pair = n) xs else [])"
  by (induction xs) auto

text \<open>The pairs of the filtered headers, and what a lookup in them finds.\<close>

lemma filterHeaders_entries:
  "Headers_entries (filterHeaders hs e) =
     filter (\<lambda>pair. fst pair \<notin> set UNSIGNABLE_HEADERS \<and> \<not> startsWith (fst pair) ''cf-''
               \<and> (case ALLOWED_HEADERS e of None \<Rightarrow> True | Some allowed \<Rightarrow> fst pair \<in> set allowed))
       (Headers_entries hs)"
proof -
  have "filterHeaders hs e =
     filter (\<lambda>pair. fst pair \<notin> set UNSIGNABLE_HEADERS \<and> \<not> startsWith (fst pair) ''cf-''
               \<and> (case ALLOWED_HEADERS e of None \<Rightarrow> True | Some allowed \<Rightarrow> fst pair \<in> set allowed))
       (Headers_entries hs)"
    unfolding filterHeaders_def Headers_new_def
    by (rule filter_cong) (auto split: option.splits)
  then show ?thesis by (simp add: Headers_entries_filter)
qed

lemma filterHeaders_get:
  "Headers_get (filterHeaders hs e) name =
     (if toLowerCase name \<notin> set UNSIGNABLE_HEADERS \<and> \<not> startsWith (toLowerCase name) ''cf-''
         \<and> (case ALLOWED_HEADERS e of None \<Rightarrow> True
             | Some allowed \<Rightarrow> toLowerCase name \<in> set allowed)
      then Headers_get hs name else None)"
proof -
  define keep where "keep = (\<lambda>n. n \<notin> set UNSIGNABLE_HEADERS \<and> \<not> startsWith n ''cf-''
                 \<and> (case ALLOWED_HEADERS e of None \<Rightarrow> True | Some allowed \<Rightarrow> n \<in> set allowed))"
  have entries: "Headers_entries (filterHeaders hs e)
                   = filter (\<lambda>pair. keep (fst pair)) (Headers_entries hs)"
    unfolding keep_def by (rule filterHeaders_entries)
  have "filter (\<lambda>pair. fst pair = toLowerCase name) (Headers_entries (filterHeaders hs e))
          = (if keep (toLowerCase name)
             then filter (\<lambda>pair. fst pair = toLowerCase name) (Headers_entries hs) else [])"
    unfolding entries by (rule filter_name_filter)
  then have "Headers_get (filterHeaders hs e) name
          = (if keep (toLowerCase name) then Headers_get hs name else None)"
    by (simp add: Headers_get_filter)
  then show ?thesis unfolding keep_def .
qed

text \<open>
  When the range header of the incoming request reaches the signed request:
  no allow-list, or one with \<open>range\<close> on it, and a signer that hands on the
  headers it is given.
\<close>

lemma signed_range_header:
  assumes "Headers_has (req_headers req) ''range''"
    and "ALLOWED_HEADERS e = None
         \<or> (\<exists>allowed. ALLOWED_HEADERS e = Some allowed \<and> ''range'' \<in> set allowed)"
    and "\<forall>client u m hs. Headers_has hs ''range''
           \<longrightarrow> Headers_has (sr_headers (sign client u m hs)) ''range''"
  shows "Headers_has (sr_headers (signedRequest sign req e)) ''range''"
proof -
  have lower: "toLowerCase ''range'' = ''range''"
    by (simp add: toLowerCase_def lower_char_def)
  have "''range'' \<notin> set UNSIGNABLE_HEADERS" and "\<not> startsWith ''range'' ''cf-''"
    by (simp_all add: UNSIGNABLE_HEADERS_def startsWith_def)
  with assms(2) have "Headers_get (filterHeaders (req_headers req) e) ''range''
                        = Headers_get (req_headers req) ''range''"
    by (auto simp add: filterHeaders_get lower)
  then have "Headers_has (filterHeaders (req_headers req) e) ''range''"
    using assms(1) by (simp add: Headers_get_def split: if_splits)
  with assms(3) show ?thesis by (simp add: signedRequest_def)
qed

text \<open>
  C5, as the code has it. Looked up under any name and in any case, the
  filtered headers have nothing when the lower-case name is one of the eight
  unsignable names, or starts with \<open>cf-\<close>, or an allow-list is configured and
  the lower-case name is not literally one of its entries; under every other
  name they have what the incoming headers have. The pairs the filtered
  headers yield are the pairs of the incoming headers that pass these rules.
\<close>

theorem C5_filtered_headers:
  "Headers_get (filterHeaders hs e) name =
     (if toLowerCase name \<in> {''x-forwarded-proto'', ''x-real-ip'', ''accept-encoding'', ''if-match'',
                              ''if-modified-since'', ''if-none-match'', ''if-range'',
                              ''if-unmodified-since''}
         \<or> startsWith (toLowerCase name) ''cf-''
         \<or> (\<exists>allowed. ALLOWED_HEADERS e = Some allowed \<and> toLowerCase name \<notin> set allowed)
      then None else Headers_get hs name)
   \<and> Headers_entries (filterHeaders hs e) =
       filter (\<lambda>pair. fst pair \<notin> set UNSIGNABLE_HEADERS \<and> \<not> startsWith (fst pair) ''cf-''
                 \<and> (case ALLOWED_HEADERS e of None \<Rightarrow> True | Some allowed \<Rightarrow> fst pair \<in> set allowed))
         (Headers_entries hs)"
proof (rule conjI)
  define dropped where "dropped =
      (toLowerCase name \<in> {''x-forwarded-proto'', ''x-real-ip'', ''accept-encoding'', ''if-match'',
                              ''if-modified-since'', ''if-none-match'', ''if-range'',
                              ''if-unmodified-since''}
         \<or> startsWith (toLowerCase name) ''cf-''
         \<or> (\<exists>allowed. ALLOWED_HEADERS e = Some allowed \<and> toLowerCase name \<notin> set allowed))"
  have "(toLowerCase name \<notin> set UNSIGNABLE_HEADERS \<and> \<not> startsWith (toLowerCase name) ''cf-''
         \<and> (case ALLOWED_HEADERS e of None \<Rightarrow> True
             | Some allowed \<Rightarrow> toLowerCase name \<in> set allowed)) = (\<not> dropped)"
    unfolding dropped_def UNSIGNABLE_HEADERS_def by (auto split: option.splits)
  then have "Headers_get (filterHeaders hs e) name
      = (if dropped then None else Headers_get hs name)"
    by (simp add: filterHeaders_get)
  then show "Headers_get (filterHeaders hs e) name =
     (if toLowerCase name \<in> {''x-forwarded-proto'', ''x-real-ip'', ''accept-encoding'', ''if-match'',
                              ''if-modified-since'', ''if-none-match'', ''if-range'',
                              ''if-unmodified-since''}
         \<or> startsWith (toLowerCase name) ''cf-''
         \<or> (\<exists>allowed. ALLOWED_HEADERS e = Some allowed \<and> toLowerCase name \<notin> set allowed)
      then None else Headers_get hs name)"
    unfolding dropped_def .
next
  show "Headers_entries (filterHeaders hs e) =
       filter (\<lambda>pair. fst pair \<notin> set UNSIGNABLE_HEADERS \<and> \<not> startsWith (fst pair) ''cf-''
                 \<and> (case ALLOWED_HEADERS e of None \<Rightarrow> True | Some allowed \<Rightarrow> fst pair \<in> set allowed))
         (Headers_entries hs)"
    by (rule filterHeaders_entries)
qed

theorem C5_filtered_headers_witness:
  "Headers_get (filterHeaders [(''X-Real-IP'', ''10.0.0.1''), (''CF-Ray'', ''8f''), (''Accept'', ''*/*''),
                               (''Range'', ''bytes=0-3'')]
                  (example_env ''$path'' (Some [''range'', ''content-type''])))
     ''Range'' = Some ''bytes=0-3''
   \<and> Headers_entries (filterHeaders [(''X-Real-IP'', ''10.0.0.1''), (''CF-Ray'', ''8f''),
                                      (''Accept'', ''*/*''), (''Range'', ''bytes=0-3'')]
                  (example_env ''$path'' (Some [''range'', ''content-type''])))
     = [(''range'', ''bytes=0-3'')]"
  using C5_filtered_headers
    [of "[(''X-Real-IP'', ''10.0.0.1''), (''CF-Ray'', ''8f''), (''Accept'', ''*/*''),
          (''Range'', ''bytes=0-3'')]"
        "example_env ''$path'' (Some [''range'', ''content-type''])" "''Range''"]
  by (simp add: example_env_def Headers_get_def Headers_has_def Headers_entries_def toLowerCase_def
      lower_char_def startsWith_def UNSIGNABLE_HEADERS_def)

text \<open>
  The claim as stated fails for the allow-list, which is not matched without
  regard to case: a header whose name is on the list as the client wrote it is
  dropped.
\<close>

theorem C5_allow_list_case_counterexample:
  "ALLOWED_HEADERS (example_env ''$path'' (Some [''Content-Type''])) = Some [''Content-Type'']
   \<and> Headers_get [(''Content-Type'', ''text/plain'')] ''Content-Type'' = Some ''text/plain''
   \<and> filterHeaders [(''Content-Type'', ''text/plain'')] (example_env ''$path'' (Some [''Content-Type'']))
       = []
   \<and> Headers_get
        (filterHeaders [(''Content-Type'', ''text/plain'')] (example_env ''$path'' (Some [''Content-Type''])))
        ''Content-Type'' = None"
  by (simp add: example_env_def filterHeaders_def Headers_new_def Headers_get_def Headers_has_def
      Headers_entries_def toLowerCase_def lower_char_def startsWith_def UNSIGNABLE_HEADERS_def)

section \<open>Download mode and the listing check\<close>

lemma remove_file_prefix_empty:
  assumes "remove_file_prefix p = []" and "p \<noteq> []"
  shows "p = ''file/''"
proof -
  from assms have "startsWith p ''file/''" and "drop 5 p = []"
    by (auto simp add: remove_file_prefix_def split: if_splits)
  then have "take 5 p = ''file/''" and "length p \<le> 5"
    by (simp_all add: startsWith_def)
  then show ?thesis by simp
qed

text \<open>
  C10, as the code has it. The listing check reads the normalized path before
  the prefix is stripped. In \<open>$path\<close> mode with listing disabled, a GET or HEAD
  request whose normalized path is \<open>file\<close> is answered 404 with no event; the
  stripped path would be \<open>file\<close> itself, the pattern needing the slash. In
  download mode a request whose normalized path is not empty and becomes empty
  by the stripping is not a listing request: it is signed and fetched, with
  the path \<open>/\<close>.
\<close>

theorem C10_listing_check_before_rewrite:
  "(BUCKET_NAME e = ''$path'' \<and> String (ALLOW_LIST_BUCKET e) \<noteq> ''true''
      \<and> (req_method req = ''GET'' \<or> req_method req = ''HEAD'')
      \<and> normalized_path req = ''file''
    \<longrightarrow> fetch sign up req e
          = (Inr \<lparr>status = 404, statusText = ''Not Found'', headers = [], body = None\<rparr>, [])
        \<and> rclone_path e (normalized_path req) = ''file'')
   \<and> (String (RCLONE_DOWNLOAD e) = ''true''
      \<and> (req_method req = ''GET'' \<or> req_method req = ''HEAD'')
      \<and> normalized_path req \<noteq> [] \<and> rclone_path e (normalized_path req) = []
    \<longrightarrow> \<not> isListBucketRequest e (normalized_path req)
        \<and> filter is_Sign (snd (fetch sign up req e)) = [sign_event req e]
        \<and> 0 < fetch_count (snd (fetch sign up req e))
        \<and> pathname (upstream_url e req) = ''/'')"
proof (intro conjI impI)
  assume a: "BUCKET_NAME e = ''$path'' \<and> String (ALLOW_LIST_BUCKET e) \<noteq> ''true''
      \<and> (req_method req = ''GET'' \<or> req_method req = ''HEAD'')
      \<and> normalized_path req = ''file''"
  then have "isListBucketRequest e (normalized_path req)"
    by (simp add: isListBucketRequest_def)
  with a show "fetch sign up req e
          = (Inr \<lparr>status = 404, statusText = ''Not Found'', headers = [], body = None\<rparr>, [])"
    by (auto simp add: fetch_def Headers_new_def)
  from a show "rclone_path e (normalized_path req) = ''file''"
    by (simp add: rclone_path_def remove_file_prefix_def startsWith_def)
next
  assume b: "String (RCLONE_DOWNLOAD e) = ''true''
      \<and> (req_method req = ''GET'' \<or> req_method req = ''HEAD'')
      \<and> normalized_path req \<noteq> [] \<and> rclone_path e (normalized_path req) = []"
  show no_listing: "\<not> isListBucketRequest e (normalized_path req)"
  proof (cases "BUCKET_NAME e = ''$path''")
    case True
    with b have "normalized_path req = ''file/''"
      by (simp add: rclone_path_def remove_file_prefix_empty)
    with True show ?thesis by (simp add: isListBucketRequest_def)
  next
    case False
    with b show ?thesis by (simp add: isListBucketRequest_def)
  qed
  with b have reach: "reaches_upstream req e"
    by (simp add: reaches_upstream_def)
  obtain ext where ext:
    "snd (final_upstream_response up (signedRequest sign req e) [sign_event req e])
       = [sign_event req e] @ ext"
    "\<forall>ev\<in>set ext. \<not> is_Sign ev \<and> (is_Fetch ev \<longrightarrow> ev = fetch_event (signedRequest sign req e))"
    "0 < fetch_count ext"
    using final_upstream_events [of up "signedRequest sign req e" "[sign_event req e]"] by blast
  from reach have events: "snd (fetch sign up req e) = sign_event req e # ext"
    by (simp add: fetch_forwarded_events ext(1))
  have "filter is_Sign ext = []"
    using ext(2) by (simp add: filter_empty_conv)
  then show "filter is_Sign (snd (fetch sign up req e)) = [sign_event req e]"
    by (simp add: events sign_event_def)
  show "0 < fetch_count (snd (fetch sign up req e))"
    using ext(3) by (simp add: events fetch_count_def sign_event_def)
  from b show "pathname (upstream_url e req) = ''/''"
    by (simp add: upstream_url_def Let_def set_pathname_def set_hostname_def)
qed

theorem C10_listing_check_before_rewrite_witness:
  "normalized_path (example_request ''GET'' ''/file/'' []) = ''file''
   \<and> fetch example_sign (example_upstream [example_200]) (example_request ''GET'' ''/file/'' [])
        (example_env ''$path'' None)
      = (Inr \<lparr>status = 404, statusText = ''Not Found'', headers = [], body = None\<rparr>, [])
   \<and> normalized_path (example_request ''GET'' ''/file//'' []) = ''file/''
   \<and> rclone_path (example_env ''$path'' None) ''file/'' = []
   \<and> 0 < fetch_count (snd (fetch example_sign (example_upstream [example_200])
                             (example_request ''GET'' ''/file//'' []) (example_env ''$path'' None)))
   \<and> pathname (upstream_url (example_env ''$path'' None) (example_request ''GET'' ''/file//'' []))
       = ''/''"
proof -
  define e where "e = example_env ''$path'' None"
  have mode: "BUCKET_NAME e = ''$path''" "String (ALLOW_LIST_BUCKET e) \<noteq> ''true''"
    "String (RCLONE_DOWNLOAD e) = ''true''"
    unfolding e_def by (simp_all add: example_env_def)
  have m: "req_method (example_request ''GET'' p []) = ''GET''" for p
    by (simp add: example_request_def)
  have p1: "normalized_path (example_request ''GET'' ''/file/'' []) = ''file''"
    by (simp add: normalized_path_def example_request_def remove_leading_slash_def
        remove_trailing_slash_def)
  have p2: "normalized_path (example_request ''GET'' ''/file//'' []) = ''file/''"
    by (simp add: normalized_path_def example_request_def remove_leading_slash_def
        remove_trailing_slash_def)
  have stripped: "rclone_path e ''file/'' = []"
    using mode(1) by (simp add: rclone_path_def remove_file_prefix_def startsWith_def)
  from C10_listing_check_before_rewrite
         [of e "example_request ''GET'' ''/file/'' []" example_sign "example_upstream [example_200]"]
       mode m p1
  have first: "fetch example_sign (example_upstream [example_200])
                 (example_request ''GET'' ''/file/'' []) e
      = (Inr \<lparr>status = 404, statusText = ''Not Found'', headers = [], body = None\<rparr>, [])"
    by simp
  from C10_listing_check_before_rewrite
         [of e "example_request ''GET'' ''/file//'' []" example_sign "example_upstream [example_200]"]
       mode m p2 stripped
  have second: "0 < fetch_count (snd (fetch example_sign (example_upstream [example_200])
                             (example_request ''GET'' ''/file//'' []) e))
      \<and> pathname (upstream_url e (example_request ''GET'' ''/file//'' [])) = ''/''"
    by simp
  from first second p1 p2 stripped show ?thesis
    unfolding e_def by simp
qed

text \<open>
  The claim as stated fails in its description of the rejected request: for
  the normalized path \<open>file\<close> the rewritten path would not be empty.
\<close>

theorem C10_rewritten_path_counterexample:
  "normalized_path (example_request ''GET'' ''/file/'' []) = ''file''
   \<and> fetch example_sign (example_upstream [example_200]) (example_request ''GET'' ''/file/'' [])
        (example_env ''$path'' None)
      = (Inr \<lparr>status = 404, statusText = ''Not Found'', headers = [], body = None\<rparr>, [])
   \<and> rclone_path (example_env ''$path'' None)
        (normalized_path (example_request ''GET'' ''/file/'' [])) = ''file''"
  by (simp add: fetch_def normalized_path_def example_request_def example_env_def
      remove_leading_slash_def remove_trailing_slash_def isListBucketRequest_def Headers_new_def
      rclone_path_def remove_file_prefix_def startsWith_def)

end
